theory Spec2Isabelle
  imports Complex_Main "HOL-Library.Log_Nat"
begin

section \<open>Data model\<close>

text \<open>
  A caught failure is any JavaScript value (\<open>unknown\<close>). The code distinguishes three
  shapes: an \<open>APICallError\<close> of the provider SDK (optional \<open>statusCode\<close>, the
  \<open>isRetryable\<close> flag, a message), a \<open>TypeError\<close> (message), and everything else.
  \<open>DOMException\<close> (message, name) is the value the code itself creates for a
  cancellation without a reason; \<open>OtherError\<close> stands for any other thrown value.
\<close>

datatype failure =
    APICallError (statusCode: "int option") (isRetryable: bool) (message: string)
  | TypeError string
  | DOMException string string
  | OtherError string

text \<open>\<open>ErrorClassification\<close> of \<open>types.ts\<close>: \<open>{ action: 'retry' | 'fallback' | 'throw' }\<close>.\<close>

datatype ErrorClassification = Retry | Fallback | Throw

section \<open>The default classifier (\<open>error-classifier.ts\<close>)\<close>

text \<open>\<open>String.prototype.includes\<close>: the argument occurs as a contiguous substring.\<close>

fun str_includes :: "string \<Rightarrow> string \<Rightarrow> bool" where
  "str_includes [] sub = (sub = [])"
| "str_includes (c # cs) sub = (take (length sub) (c # cs) = sub \<or> str_includes cs sub)"

fun defaultShouldRetry :: "failure \<Rightarrow> ErrorClassification" where
  "defaultShouldRetry (APICallError status retryable msg) =
     (if status = Some 429 then Fallback
      else if status \<noteq> None \<and> the status \<ge> 500 then Retry
      else if retryable then Retry
      else Throw)"
| "defaultShouldRetry (TypeError msg) =
     (if str_includes msg ''fetch'' then Retry else Throw)"
| "defaultShouldRetry (DOMException msg name) = Throw"
| "defaultShouldRetry (OtherError msg) = Throw"

section \<open>JavaScript numbers\<close>

text \<open>
  A JavaScript number is an IEEE 754 double: a finite value, one of the two infinities,
  or NaN. A finite value is given by the rational it denotes; the two zeros are not
  told apart (nothing below divides, and they compare equal). Arithmetic on finite
  values computes the exact result and rounds it to the nearest double, ties to the even
  significand, with overflow to an infinity.
\<close>

datatype number = Finite rat | PosInfinity | NegInfinity | NaN

text \<open>
  \<open>expo x\<close> is the binary exponent of \<open>x \<noteq> 0\<close>, the \<open>e\<close> with
  \<open>2^e \<le> |x| < 2^(e+1)\<close>, computed from the bit length of the integer part of
  \<open>|x|\<close>, or of \<open>1 / |x|\<close> when \<open>|x| < 1\<close>.
\<close>

definition expo :: "rat \<Rightarrow> int" where
  "expo x = (if 1 \<le> \<bar>x\<bar> then bitlen \<lfloor>\<bar>x\<bar>\<rfloor> - 1 else - bitlen (\<lceil>1 / \<bar>x\<bar>\<rceil> - 1))"

text \<open>
  The unit in the last place at \<open>x\<close>: 53 significant bits, and exponents below
  \<open>-1022\<close> share the unit \<open>2^-1074\<close> of the subnormal numbers.
\<close>

definition qexp :: "rat \<Rightarrow> int" where
  "qexp x = max (expo x) (- 1022) - 52"

definition ulp :: "rat \<Rightarrow> rat" where
  "ulp x = 2 powi qexp x"

text \<open>Rounding to the nearest integer, a tie going to the even one.\<close>

definition roundEven :: "rat \<Rightarrow> int" where
  "roundEven r =
     (let f = \<lfloor>r\<rfloor>; d = r - of_int f
      in if d < 1 / 2 then f else if 1 / 2 < d then f + 1 else if even f then f else f + 1)"

text \<open>The multiple of the unit nearest to \<open>x\<close>, before overflow is looked at.\<close>

definition nearest :: "rat \<Rightarrow> rat" where
  "nearest x = of_int (roundEven (x / ulp x)) * ulp x"

text \<open>\<open>2^1024\<close>, the least magnitude that a rounded result cannot have.\<close>

definition huge :: rat where
  "huge = 2 powi 1024"

text \<open>The rationals that are doubles: those that rounding leaves alone.\<close>

definition double :: "rat \<Rightarrow> bool" where
  "double x \<longleftrightarrow> nearest x = x \<and> \<bar>x\<bar> < huge"

definition fl :: "rat \<Rightarrow> number" where
  "fl x =
     (let y = nearest x
      in if huge \<le> y then PosInfinity
         else if y \<le> - huge then NegInfinity
         else Finite y)"

text \<open>The operators \<open>*\<close> and \<open>+\<close> on numbers.\<close>

fun num_mult :: "number \<Rightarrow> number \<Rightarrow> number" where
  "num_mult NaN b = NaN"
| "num_mult a NaN = NaN"
| "num_mult (Finite a) (Finite b) = fl (a * b)"
| "num_mult (Finite a) PosInfinity =
     (if a = 0 then NaN else if 0 < a then PosInfinity else NegInfinity)"
| "num_mult (Finite a) NegInfinity =
     (if a = 0 then NaN else if 0 < a then NegInfinity else PosInfinity)"
| "num_mult PosInfinity (Finite b) =
     (if b = 0 then NaN else if 0 < b then PosInfinity else NegInfinity)"
| "num_mult NegInfinity (Finite b) =
     (if b = 0 then NaN else if 0 < b then NegInfinity else PosInfinity)"
| "num_mult PosInfinity PosInfinity = PosInfinity"
| "num_mult PosInfinity NegInfinity = NegInfinity"
| "num_mult NegInfinity PosInfinity = NegInfinity"
| "num_mult NegInfinity NegInfinity = PosInfinity"

fun num_add :: "number \<Rightarrow> number \<Rightarrow> number" where
  "num_add NaN b = NaN"
| "num_add a NaN = NaN"
| "num_add (Finite a) (Finite b) = fl (a + b)"
| "num_add (Finite a) PosInfinity = PosInfinity"
| "num_add (Finite a) NegInfinity = NegInfinity"
| "num_add PosInfinity (Finite b) = PosInfinity"
| "num_add NegInfinity (Finite b) = NegInfinity"
| "num_add PosInfinity PosInfinity = PosInfinity"
| "num_add PosInfinity NegInfinity = NaN"
| "num_add NegInfinity PosInfinity = NaN"
| "num_add NegInfinity NegInfinity = NegInfinity"

text \<open>
  \<open>Math.min\<close> is NaN as soon as an argument is. \<open>Math.round\<close> gives the nearest
  integer, a tie going up, and leaves the infinities and NaN as they are; on a double
  its result is a double. \<open>Math.pow(2, n)\<close> for a whole \<open>n \<ge> 0\<close> is the power,
  rounded: \<open>Infinity\<close> from \<open>n = 1024\<close> on.
\<close>

fun Math_min :: "number \<Rightarrow> number \<Rightarrow> number" where
  "Math_min NaN b = NaN"
| "Math_min a NaN = NaN"
| "Math_min NegInfinity b = NegInfinity"
| "Math_min a NegInfinity = NegInfinity"
| "Math_min PosInfinity b = b"
| "Math_min a PosInfinity = a"
| "Math_min (Finite a) (Finite b) = Finite (min a b)"

fun Math_round :: "number \<Rightarrow> number" where
  "Math_round (Finite x) = Finite (of_int \<lfloor>x + 1 / 2\<rfloor>)"
| "Math_round a = a"

definition Math_pow2 :: "nat \<Rightarrow> number" where
  "Math_pow2 n = fl (2 ^ n)"

section \<open>Backoff (\<open>utils.ts\<close>)\<close>

text \<open>
  \<open>attempt\<close> is the counter of the inner loop, a natural number. The draw of
  \<open>Math.random()\<close>, a double in \<open>[0, 1)\<close>, is a parameter of \<open>calculateDelay\<close>.
\<close>

definition calculateDelay :: "nat \<Rightarrow> number \<Rightarrow> number \<Rightarrow> rat \<Rightarrow> number" where
  "calculateDelay attempt baseDelayMs maxDelayMs random =
     (let exponential = Math_min maxDelayMs (num_mult baseDelayMs (Math_pow2 attempt));
          jitter = num_add (Finite (1 / 2)) (num_mult (Finite random) (Finite (1 / 2)))
      in Math_round (num_mult exponential jitter))"

section \<open>Backends, options and the cancellation signal\<close>

text \<open>
  Logical time counts the suspension points of one invocation: instant \<open>n\<close> is reached
  when \<open>n\<close> awaited steps (backend operations and backoff sleeps) are over. JavaScript
  runs one task at a time, so the signal changes only while the orchestrator is
  suspended. \<open>firesAt = Some t\<close> says that the signal becomes active during the
  \<open>t\<close>-th awaited step (\<open>t = 0\<close>: it is active before the call), and stays so;
  \<open>firesAt = None\<close> that it never does. \<open>reason\<close> is the signal's \<open>reason\<close>
  (\<open>None\<close> for \<open>undefined\<close>).
\<close>

record abort_signal =
  firesAt :: "nat option"
  reason :: "failure option"

record call_options =
  prompt :: string
  abortSignal :: "abort_signal option"

text \<open>
  A backend (\<open>LanguageModelV3\<close>) is opaque: its identity, its declared URL support and
  its two operations. The outcome of an operation may depend on the options and on the
  instant at which it is invoked; \<open>Inl\<close> is a rejection with the thrown failure.
\<close>

record ('g, 's) model =
  provider :: string
  modelId :: string
  supportedUrls :: "(string \<times> string list) list"
  doGenerate :: "call_options \<Rightarrow> nat \<Rightarrow> failure + 'g"
  doStream :: "call_options \<Rightarrow> nat \<Rightarrow> failure + 's"

text \<open>\<open>signal.aborted\<close> read at instant \<open>now\<close>.\<close>

definition signal_aborted :: "abort_signal \<Rightarrow> nat \<Rightarrow> bool" where
  "signal_aborted s now = (case firesAt s of None \<Rightarrow> False | Some t \<Rightarrow> t \<le> now)"

text \<open>\<open>signal.reason ?? new DOMException('Aborted', 'AbortError')\<close>.\<close>

definition abortReason :: "abort_signal \<Rightarrow> failure" where
  "abortReason s = (case reason s of Some r \<Rightarrow> r | None \<Rightarrow> DOMException ''Aborted'' ''AbortError'')"

text \<open>
  The check \<open>if (signal?.aborted) throw signal.reason ?? ...\<close>: the failure to raise
  when the signal is active at \<open>now\<close>, \<open>None\<close> otherwise (also without a signal).
\<close>

definition cancellation :: "abort_signal option \<Rightarrow> nat \<Rightarrow> failure option" where
  "cancellation signal now =
     (case signal of
        None \<Rightarrow> None
      | Some s \<Rightarrow> if signal_aborted s now then Some (abortReason s) else None)"

section \<open>Events and the observable trace\<close>

text \<open>
  The events of \<open>types.ts\<close>, fields in the order of their declarations:
  \<open>ErrorEvent modelIndex model error classification\<close>,
  \<open>RetryEvent modelIndex model attempt maxRetries error delayMs\<close>,
  \<open>FallbackEvent failedModelIndex failedModel nextModelIndex nextModel error totalAttempts\<close>.
\<close>

datatype ('g, 's) event =
    ErrorEvent nat "('g, 's) model" failure ErrorClassification
  | RetryEvent nat "('g, 's) model" nat int failure number
  | FallbackEvent nat "('g, 's) model" nat "('g, 's) model" failure nat

text \<open>
  What one invocation does to the outside, in order: \<open>Invoke i\<close>, the operation of
  backend \<open>i\<close> is called; \<open>Emit e\<close>, an installed observer is called with \<open>e\<close>;
  \<open>Wait ms completed\<close>, a timer of \<open>ms\<close> milliseconds is started and either runs out
  (\<open>completed\<close>) or is cleared because the signal fired while waiting.
\<close>

datatype ('g, 's) action =
    Invoke nat
  | Emit "('g, 's) event"
  | Wait number bool

record ('g, 's) world =
  now :: nat
  trace :: "('g, 's) action list"

text \<open>An optional observer call \<open>onX?.(event)\<close>.\<close>

definition notify :: "bool \<Rightarrow> ('g, 's) event \<Rightarrow> ('g, 's) world \<Rightarrow> ('g, 's) world" where
  "notify installed e w = (if installed then w\<lparr>trace := trace w @ [Emit e]\<rparr> else w)"

section \<open>Cancellable sleep (\<open>utils.ts\<close>)\<close>

datatype sleep_result = Resolved | Rejected failure

text \<open>
  Already aborted: rejected at once, no timer. Otherwise the timer is started and the
  sleep is one awaited step; if the signal fires during it, the listener clears the
  timer and rejects.
\<close>

definition sleep :: "number \<Rightarrow> abort_signal option \<Rightarrow> ('g, 's) world \<Rightarrow> sleep_result \<times> ('g, 's) world" where
  "sleep ms signal w =
     (case cancellation signal (now w) of
        Some c \<Rightarrow> (Rejected c, w)
      | None \<Rightarrow>
          (case cancellation signal (now w + 1) of
             Some c \<Rightarrow> (Rejected c, w\<lparr>now := now w + 1, trace := trace w @ [Wait ms False]\<rparr>)
           | None \<Rightarrow> (Resolved, w\<lparr>now := now w + 1, trace := trace w @ [Wait ms True]\<rparr>)))"

section \<open>Union of the supported URLs (\<open>utils.ts\<close>)\<close>

fun mergeEntries :: "(string \<rightharpoonup> string list) \<Rightarrow> (string \<times> string list) list \<Rightarrow> (string \<rightharpoonup> string list)" where
  "mergeEntries merged [] = merged"
| "mergeEntries merged ((mediaType, patterns) # rest) =
     mergeEntries
       (merged(mediaType \<mapsto> (case merged mediaType of None \<Rightarrow> [] | Some ps \<Rightarrow> ps) @ patterns))
       rest"

definition mergeSupportedUrls :: "('g, 's) model list \<Rightarrow> (string \<rightharpoonup> string list)" where
  "mergeSupportedUrls ms = foldl mergeEntries Map.empty (map supportedUrls ms)"

section \<open>The composite (\<open>fallback-model.ts\<close>)\<close>

text \<open>
  \<open>FallbackModelConfig\<close>: an optional field is an \<open>option\<close>; of an observer only its
  presence matters, since observers are notified and nothing is read back from them.
  \<open>maxRetriesPerModel\<close> is a count and is modelled as an integer, negative values
  included; the two delays are numbers.
\<close>

record ('g, 's) FallbackModelConfig =
  models :: "('g, 's) model list"
  maxRetriesPerModel :: "int option"
  baseDelayMs :: "number option"
  maxDelayMs :: "number option"
  shouldRetry :: "(failure \<Rightarrow> ErrorClassification) option"
  onRetry :: bool
  onFallback :: bool
  onError :: bool
  cfg_provider :: "string option"
  cfg_modelId :: "string option"

text \<open>
  The object that \<open>createFallbackModel\<close> returns, with the variables of the
  configuration that its two operations close over (defaults filled in).
\<close>

record ('g, 's) fallback_model =
  specificationVersion :: string
  fm_provider :: string
  fm_modelId :: string
  fm_supportedUrls :: "string \<rightharpoonup> string list"
  fm_models :: "('g, 's) model list"
  fm_maxRetriesPerModel :: int
  fm_baseDelayMs :: number
  fm_maxDelayMs :: number
  fm_shouldRetry :: "failure \<Rightarrow> ErrorClassification"
  fm_onRetry :: bool
  fm_onFallback :: bool
  fm_onError :: bool

text \<open>\<open>Array.prototype.join\<close>.\<close>

fun join :: "string \<Rightarrow> string list \<Rightarrow> string" where
  "join sep [] = []"
| "join sep [x] = x"
| "join sep (x # y # ys) = x @ sep @ join sep (y # ys)"

text \<open>\<open>Inl msg\<close> is \<open>throw new Error(msg)\<close>.\<close>

definition createFallbackModel :: "('g, 's) FallbackModelConfig \<Rightarrow> string + ('g, 's) fallback_model" where
  "createFallbackModel config =
     (let ms = models config;
          maxRetries = (case maxRetriesPerModel config of None \<Rightarrow> 0 | Some n \<Rightarrow> n);
          baseDelay = (case baseDelayMs config of None \<Rightarrow> Finite 1000 | Some d \<Rightarrow> d);
          maxDelay = (case maxDelayMs config of None \<Rightarrow> Finite 30000 | Some d \<Rightarrow> d);
          classify = (case shouldRetry config of None \<Rightarrow> defaultShouldRetry | Some f \<Rightarrow> f);
          prov = (case cfg_provider config of None \<Rightarrow> ''fallback'' | Some p \<Rightarrow> p);
          mid = (case cfg_modelId config of None \<Rightarrow> join '' -> '' (map modelId ms) | Some m \<Rightarrow> m)
      in if length ms = 0 then Inl ''createFallbackModel requires at least one model''
         else Inr \<lparr>specificationVersion = ''v3'',
                   fm_provider = prov,
                   fm_modelId = mid,
                   fm_supportedUrls = mergeSupportedUrls ms,
                   fm_models = ms,
                   fm_maxRetriesPerModel = maxRetries,
                   fm_baseDelayMs = baseDelay,
                   fm_maxDelayMs = maxDelay,
                   fm_shouldRetry = classify,
                   fm_onRetry = onRetry config,
                   fm_onFallback = onFallback config,
                   fm_onError = onError config\<rparr>)"

subsection \<open>\<open>executeWithFallback\<close>\<close>

text \<open>
  What an invocation can throw: a failure as it is (fatal or cancellation), or the
  \<open>AllModelsExhaustedError\<close> with its \<open>errors\<close> array, which the constructor of
  \<open>errors.ts\<close> stores as it is given. The message of that error is a rendering of the
  same array and carries nothing else, so it is left out.
\<close>

datatype ('g, 's) thrown =
    Failure failure
  | AllModelsExhaustedError "(('g, 's) model \<times> failure) list"

datatype ('g, 's, 'r) completion =
    Returned 'r
  | Thrown "('g, 's) thrown"

text \<open>
  The inner loop over \<open>attempt\<close> for the backend at \<open>modelIndex\<close>. It yields
  \<open>Some c\<close> when the invocation is over (a \<open>return\<close> or a \<open>throw\<close>), \<open>None\<close> when the
  loop is left by \<open>break\<close> or by its condition, together with the \<open>errors\<close> array.
  \<open>operation model t\<close> is the outcome of \<open>await operation(model)\<close> started at instant
  \<open>t\<close>; \<open>random t\<close> is the value \<open>Math.random()\<close> returns at instant \<open>t\<close>.
\<close>

function attemptLoop ::
  "('g, 's) fallback_model \<Rightarrow> (('g, 's) model \<Rightarrow> nat \<Rightarrow> failure + 'r) \<Rightarrow> (nat \<Rightarrow> rat) \<Rightarrow>
   call_options \<Rightarrow> nat \<Rightarrow> nat \<Rightarrow> (('g, 's) model \<times> failure) list \<Rightarrow> ('g, 's) world \<Rightarrow>
   ('g, 's, 'r) completion option \<times> (('g, 's) model \<times> failure) list \<times> ('g, 's) world" where
  "attemptLoop fm operation random options modelIndex attempt errors w =
     (if \<not> int attempt \<le> fm_maxRetriesPerModel fm then (None, errors, w)
      else case cancellation (abortSignal options) (now w) of
        Some c \<Rightarrow> (Some (Thrown (Failure c)), errors, w)
      | None \<Rightarrow>
          let model = fm_models fm ! modelIndex;
              w1 = w\<lparr>now := now w + 1, trace := trace w @ [Invoke modelIndex]\<rparr>
          in case operation model (now w) of
               Inr result \<Rightarrow> (Some (Returned result), errors, w1)
             | Inl error \<Rightarrow>
                 let classification = fm_shouldRetry fm error;
                     w2 = notify (fm_onError fm)
                            (ErrorEvent modelIndex model error classification) w1
                 in if classification = Throw then (Some (Thrown (Failure error)), errors, w2)
                    else
                      let errors' = errors @ [(model, error)]
                      in if classification = Retry \<and> int attempt < fm_maxRetriesPerModel fm then
                           let delay = calculateDelay attempt (fm_baseDelayMs fm)
                                         (fm_maxDelayMs fm) (random (now w2));
                               w3 = notify (fm_onRetry fm)
                                      (RetryEvent modelIndex model (attempt + 1)
                                         (fm_maxRetriesPerModel fm) error delay) w2
                           in case sleep delay (abortSignal options) w3 of
                                (r, w4) \<Rightarrow>
                                  (case r of
                                     Rejected c \<Rightarrow> (Some (Thrown (Failure c)), errors', w4)
                                   | Resolved \<Rightarrow>
                                       attemptLoop fm operation random options modelIndex
                                         (attempt + 1) errors' w4)
                         else
                           (None, errors',
                            if int modelIndex < int (length (fm_models fm)) - 1
                            then notify (fm_onFallback fm)
                                   (FallbackEvent modelIndex model (modelIndex + 1)
                                      (fm_models fm ! (modelIndex + 1)) error (attempt + 1)) w2
                            else w2))"
  by pat_completeness auto
termination
  by (relation "measure (\<lambda>(fm, operation, random, options, modelIndex, attempt, errors, w).
        nat (fm_maxRetriesPerModel fm + 1 - int attempt))") auto

declare attemptLoop.simps [simp del]

text \<open>The outer loop over the chain, and the \<open>throw\<close> after it.\<close>

function modelLoop ::
  "('g, 's) fallback_model \<Rightarrow> (('g, 's) model \<Rightarrow> nat \<Rightarrow> failure + 'r) \<Rightarrow> (nat \<Rightarrow> rat) \<Rightarrow>
   call_options \<Rightarrow> nat \<Rightarrow> (('g, 's) model \<times> failure) list \<Rightarrow> ('g, 's) world \<Rightarrow>
   ('g, 's, 'r) completion \<times> ('g, 's) world" where
  "modelLoop fm operation random options modelIndex errors w =
     (if modelIndex < length (fm_models fm) then
        case attemptLoop fm operation random options modelIndex 0 errors w of
          (exit, errors', w') \<Rightarrow>
            (case exit of
               Some c \<Rightarrow> (c, w')
             | None \<Rightarrow> modelLoop fm operation random options (modelIndex + 1) errors' w')
      else (Thrown (AllModelsExhaustedError errors), w))"
  by pat_completeness auto
termination
  by (relation "measure (\<lambda>(fm, operation, random, options, modelIndex, errors, w).
        length (fm_models fm) - modelIndex)") auto

declare modelLoop.simps [simp del]

text \<open>One invocation: its completion and the world it leaves, the trace in it.\<close>

definition executeWithFallback ::
  "('g, 's) fallback_model \<Rightarrow> (('g, 's) model \<Rightarrow> nat \<Rightarrow> failure + 'r) \<Rightarrow> (nat \<Rightarrow> rat) \<Rightarrow>
   call_options \<Rightarrow> ('g, 's, 'r) completion \<times> ('g, 's) world" where
  "executeWithFallback fm operation random options =
     modelLoop fm operation random options 0 [] \<lparr>now = 0, trace = []\<rparr>"

definition fallback_doGenerate ::
  "('g, 's) fallback_model \<Rightarrow> (nat \<Rightarrow> rat) \<Rightarrow> call_options \<Rightarrow> ('g, 's, 'g) completion \<times> ('g, 's) world" where
  "fallback_doGenerate fm random options =
     executeWithFallback fm (\<lambda>model. doGenerate model options) random options"

definition fallback_doStream ::
  "('g, 's) fallback_model \<Rightarrow> (nat \<Rightarrow> rat) \<Rightarrow> call_options \<Rightarrow> ('g, 's, 's) completion \<times> ('g, 's) world" where
  "fallback_doStream fm random options =
     executeWithFallback fm (\<lambda>model. doStream model options) random options"

subsection \<open>The worlds one iteration passes through\<close>

text \<open>
  Names for the intermediate values of one iteration of the inner loop, as they appear
  in \<open>attemptLoop\<close>: the world after the operation was invoked, after the Error event,
  the backoff delay, the world after the Retry event, and the world after the Fallback
  event (emitted unless the backend is the last one).
\<close>

abbreviation invoked :: "nat \<Rightarrow> ('g, 's) world \<Rightarrow> ('g, 's) world" where
  "invoked modelIndex w \<equiv> w\<lparr>now := now w + 1, trace := trace w @ [Invoke modelIndex]\<rparr>"

abbreviation caught :: "('g, 's) fallback_model \<Rightarrow> nat \<Rightarrow> failure \<Rightarrow> ('g, 's) world \<Rightarrow> ('g, 's) world" where
  "caught fm modelIndex error w \<equiv>
     notify (fm_onError fm)
       (ErrorEvent modelIndex (fm_models fm ! modelIndex) error (fm_shouldRetry fm error))
       (invoked modelIndex w)"

abbreviation backoff :: "('g, 's) fallback_model \<Rightarrow> (nat \<Rightarrow> rat) \<Rightarrow> nat \<Rightarrow> ('g, 's) world \<Rightarrow> number" where
  "backoff fm random attempt w \<equiv>
     calculateDelay attempt (fm_baseDelayMs fm) (fm_maxDelayMs fm) (random (now w))"

abbreviation retrying ::
  "('g, 's) fallback_model \<Rightarrow> (nat \<Rightarrow> rat) \<Rightarrow> nat \<Rightarrow> nat \<Rightarrow> failure \<Rightarrow> ('g, 's) world \<Rightarrow> ('g, 's) world" where
  "retrying fm random modelIndex attempt error w \<equiv>
     notify (fm_onRetry fm)
       (RetryEvent modelIndex (fm_models fm ! modelIndex) (attempt + 1)
          (fm_maxRetriesPerModel fm) error
          (backoff fm random attempt (caught fm modelIndex error w)))
       (caught fm modelIndex error w)"

abbreviation advancing ::
  "('g, 's) fallback_model \<Rightarrow> nat \<Rightarrow> nat \<Rightarrow> failure \<Rightarrow> ('g, 's) world \<Rightarrow> ('g, 's) world" where
  "advancing fm modelIndex attempt error w \<equiv>
     (if int modelIndex < int (length (fm_models fm)) - 1
      then notify (fm_onFallback fm)
             (FallbackEvent modelIndex (fm_models fm ! modelIndex) (modelIndex + 1)
                (fm_models fm ! (modelIndex + 1)) error (attempt + 1))
             (caught fm modelIndex error w)
      else caught fm modelIndex error w)"

text \<open>Reading a trace: the Fallback events in it, and the backends invoked.\<close>

fun isFallbackEvent :: "('g, 's) action \<Rightarrow> bool" where
  "isFallbackEvent (Emit (FallbackEvent i m j m' e n)) = True"
| "isFallbackEvent a = False"

text \<open>
  \<open>elapsed tr\<close> counts the awaited steps of a trace, and \<open>attempts t tr\<close> lists the
  backend invocations of a trace that starts at instant \<open>t\<close>, each with the index of
  the backend and the instant at which its operation was invoked.
\<close>

fun elapsed :: "('g, 's) action list \<Rightarrow> nat" where
  "elapsed [] = 0"
| "elapsed (Invoke i # tr) = elapsed tr + 1"
| "elapsed (Wait ms completed # tr) = elapsed tr + 1"
| "elapsed (Emit e # tr) = elapsed tr"

fun attempts :: "nat \<Rightarrow> ('g, 's) action list \<Rightarrow> (nat \<times> nat) list" where
  "attempts t [] = []"
| "attempts t (Invoke i # tr) = (i, t) # attempts (t + 1) tr"
| "attempts t (Wait ms completed # tr) = attempts (t + 1) tr"
| "attempts t (Emit e # tr) = attempts t tr"

text \<open>
  A pair of the \<open>errors\<close> array records an attempt when it holds the backend that
  the attempt invoked and the failure that this very invocation threw, a failure that
  the classifier does not map to \<open>Throw\<close>. An attempt is fatal with a failure when
  its invocation threw that failure and the classifier maps it to \<open>Throw\<close>.
\<close>

definition recorded ::
  "('g, 's) fallback_model \<Rightarrow> (('g, 's) model \<Rightarrow> nat \<Rightarrow> failure + 'r) \<Rightarrow>
   ('g, 's) model \<times> failure \<Rightarrow> nat \<times> nat \<Rightarrow> bool" where
  "recorded fm operation pair attempt =
     (fst pair = fm_models fm ! fst attempt \<and>
      operation (fst pair) (snd attempt) = Inl (snd pair) \<and>
      fm_shouldRetry fm (snd pair) \<noteq> Throw)"

definition fatalAt ::
  "('g, 's) fallback_model \<Rightarrow> (('g, 's) model \<Rightarrow> nat \<Rightarrow> failure + 'r) \<Rightarrow>
   nat \<times> nat \<Rightarrow> failure \<Rightarrow> bool" where
  "fatalAt fm operation attempt error =
     (operation (fm_models fm ! fst attempt) (snd attempt) = Inl error \<and>
      fm_shouldRetry fm error = Throw)"

section \<open>Mock backends (\<open>test.ts\<close>)\<close>

text \<open>
  \<open>mockModel(id, behavior)\<close> of the repository's manual test: a backend whose two
  operations always succeed, or always fail with a 429, a 500 or a network error.
\<close>

datatype behavior = Succeed | Status429 | Status500 | NetworkError

definition mockModel :: "string \<Rightarrow> behavior \<Rightarrow> (string, string) model" where
  "mockModel ident b =
     \<lparr>provider = ''mock'',
      modelId = ident,
      supportedUrls = [],
      doGenerate = (\<lambda>options t. case b of
          Status429 \<Rightarrow> Inl (APICallError (Some 429) True (''Rate limited on '' @ ident))
        | Status500 \<Rightarrow> Inl (APICallError (Some 500) True (''Server error on '' @ ident))
        | NetworkError \<Rightarrow> Inl (TypeError ''fetch failed'')
        | Succeed \<Rightarrow> Inr (''Response from '' @ ident)),
      doStream = (\<lambda>options t. case b of
          Status429 \<Rightarrow> Inl (APICallError (Some 429) True (''Rate limited on '' @ ident))
        | Status500 \<Rightarrow> Inl (APICallError (Some 500) True (''Server error on '' @ ident))
        | NetworkError \<Rightarrow> Inl (TypeError ''fetch failed'')
        | Succeed \<Rightarrow> Inr (''Streamed from '' @ ident))\<rparr>"

text \<open>
  The configurations of the test: a chain, \<open>maxRetriesPerModel\<close>, every observer
  installed, everything else left to its default.
\<close>

definition mockConfig :: "(string, string) model list \<Rightarrow> int option \<Rightarrow> (string, string) FallbackModelConfig" where
  "mockConfig ms retries =
     \<lparr>models = ms, maxRetriesPerModel = retries, baseDelayMs = None, maxDelayMs = None,
      shouldRetry = None, onRetry = True, onFallback = True, onError = True,
      cfg_provider = None, cfg_modelId = None\<rparr>"

text \<open>The composite that \<open>createFallbackModel\<close> builds from \<open>mockConfig\<close> for a non-empty chain.\<close>

definition mockFallback :: "(string, string) model list \<Rightarrow> int \<Rightarrow> (string, string) fallback_model" where
  "mockFallback ms retries =
     \<lparr>specificationVersion = ''v3'',
      fm_provider = ''fallback'',
      fm_modelId = join '' -> '' (map modelId ms),
      fm_supportedUrls = mergeSupportedUrls ms,
      fm_models = ms,
      fm_maxRetriesPerModel = retries,
      fm_baseDelayMs = Finite 1000,
      fm_maxDelayMs = Finite 30000,
      fm_shouldRetry = defaultShouldRetry,
      fm_onRetry = True,
      fm_onFallback = True,
      fm_onError = True\<rparr>"

text \<open>An options bag without a signal, and one whose signal fires during step \<open>t\<close>.\<close>

definition plainOptions :: call_options where
  "plainOptions = \<lparr>prompt = [], abortSignal = None\<rparr>"

definition abortingOptions :: "nat \<Rightarrow> failure option \<Rightarrow> call_options" where
  "abortingOptions t why = \<lparr>prompt = [], abortSignal = Some \<lparr>firesAt = Some t, reason = why\<rparr>\<rparr>"

text \<open>
  The backend of test 3, which always answers 500, and a backend that rejects every
  call with a given failure.
\<close>

definition unstable :: "(string, string) model" where
  "unstable = mockModel ''unstable'' Status500"

definition rejectingModel :: "string \<Rightarrow> failure \<Rightarrow> (string, string) model" where
  "rejectingModel ident f =
     \<lparr>provider = ''mock'', modelId = ident, supportedUrls = [],
      doGenerate = (\<lambda>options t. Inl f), doStream = (\<lambda>options t. Inl f)\<rparr>"

section \<open>Properties of the numbers\<close>

text \<open>
  Powers of two and binary exponents; rounding to the nearest double is monotone, leaves
  a double alone and scales with powers of two; whole numbers below \<open>2^53\<close> are doubles.
\<close>

lemma pow2_nat: "0 \<le> e \<Longrightarrow> (2::rat) powi e = 2 ^ nat e"
  by (rule power_int_nonneg_exp)

lemma expo_lower_ge1:
  assumes "1 \<le> \<bar>x\<bar>"
  shows "2 powi expo x \<le> \<bar>x\<bar>"
proof -
  let ?n = "\<lfloor>\<bar>x\<bar>\<rfloor>"
  have n: "0 < ?n" using assms by simp
  have b: "1 \<le> bitlen ?n" using n by (simp add: bitlen_alt_def)
  have "2 ^ nat (bitlen ?n - 1) \<le> ?n" using bitlen_bounds [OF n] by simp
  then have "(of_int (2 ^ nat (bitlen ?n - 1)) :: rat) \<le> of_int ?n"
    by (simp only: of_int_le_iff)
  also have "\<dots> \<le> \<bar>x\<bar>" by simp
  finally have "(2::rat) ^ nat (bitlen ?n - 1) \<le> \<bar>x\<bar>" by simp
  then show ?thesis
    using assms b by (simp add: expo_def pow2_nat)
qed

lemma expo_upper_ge1:
  assumes "1 \<le> \<bar>x\<bar>"
  shows "\<bar>x\<bar> < 2 powi (expo x + 1)"
proof -
  let ?n = "\<lfloor>\<bar>x\<bar>\<rfloor>"
  have n: "0 < ?n" using assms by simp
  have b: "1 \<le> bitlen ?n" using n by (simp add: bitlen_alt_def)
  have "?n < 2 ^ nat (bitlen ?n)" using bitlen_bounds [OF n] by simp
  then have "?n + 1 \<le> 2 ^ nat (bitlen ?n)" by simp
  then have "(of_int (?n + 1) :: rat) \<le> of_int (2 ^ nat (bitlen ?n))"
    by (simp only: of_int_le_iff)
  moreover have "\<bar>x\<bar> < of_int (?n + 1)"
    by linarith
  ultimately have "\<bar>x\<bar> < (2::rat) ^ nat (bitlen ?n)" by simp
  then show ?thesis
    using assms b by (simp add: expo_def pow2_nat)
qed

lemma expo_lower_lt1:
  assumes "x \<noteq> 0" and "\<bar>x\<bar> < 1"
  shows "2 powi expo x \<le> \<bar>x\<bar>"
proof -
  let ?y = "1 / \<bar>x\<bar>"
  let ?m = "\<lceil>?y\<rceil> - 1"
  have y: "1 < ?y" using assms by simp
  have m: "0 < ?m" using y by linarith
  have "?m < 2 ^ nat (bitlen ?m)" using bitlen_bounds [OF m] by simp
  then have "\<lceil>?y\<rceil> \<le> 2 ^ nat (bitlen ?m)" by simp
  then have "(of_int \<lceil>?y\<rceil> :: rat) \<le> of_int (2 ^ nat (bitlen ?m))"
    by (simp only: of_int_le_iff)
  then have "(of_int \<lceil>?y\<rceil> :: rat) \<le> 2 ^ nat (bitlen ?m)"
    by (simp only: of_int_power of_int_numeral)
  then have "?y \<le> (2::rat) ^ nat (bitlen ?m)"
    by (rule order_trans [OF le_of_int_ceiling])
  then have "1 / (2::rat) ^ nat (bitlen ?m) \<le> \<bar>x\<bar>"
    using assms by (simp add: field_simps)
  moreover have "(2::rat) powi (- bitlen ?m) = 1 / 2 ^ nat (bitlen ?m)"
    using bitlen_nonneg [of ?m] by (simp add: power_int_minus_divide pow2_nat)
  ultimately show ?thesis
    using assms by (simp add: expo_def)
qed

lemma expo_upper_lt1:
  assumes "x \<noteq> 0" and "\<bar>x\<bar> < 1"
  shows "\<bar>x\<bar> < 2 powi (expo x + 1)"
proof -
  let ?y = "1 / \<bar>x\<bar>"
  let ?m = "\<lceil>?y\<rceil> - 1"
  have y: "1 < ?y" using assms by simp
  have m: "0 < ?m" using y by linarith
  have b: "1 \<le> bitlen ?m" using m by (simp add: bitlen_alt_def)
  have "2 ^ nat (bitlen ?m - 1) \<le> ?m" using bitlen_bounds [OF m] by simp
  then have "(of_int (2 ^ nat (bitlen ?m - 1)) :: rat) \<le> of_int ?m"
    by (simp only: of_int_le_iff)
  moreover have "of_int ?m < ?y" by linarith
  ultimately have "(2::rat) ^ nat (bitlen ?m - 1) < ?y" by simp
  then have "\<bar>x\<bar> < 1 / (2::rat) ^ nat (bitlen ?m - 1)"
    using assms by (simp add: field_simps)
  moreover have "(2::rat) powi (- bitlen ?m + 1) = 1 / 2 ^ nat (bitlen ?m - 1)"
  proof -
    have "(2::rat) powi (- bitlen ?m + 1) = 2 powi (- (bitlen ?m - 1))" by simp
    also have "\<dots> = 1 / 2 powi (bitlen ?m - 1)" by (rule power_int_minus_divide)
    also have "\<dots> = 1 / 2 ^ nat (bitlen ?m - 1)" using b by (simp add: pow2_nat)
    finally show ?thesis .
  qed
  ultimately show ?thesis
    using assms by (simp add: expo_def)
qed

lemma expo_lower: "x \<noteq> 0 \<Longrightarrow> 2 powi expo x \<le> \<bar>x\<bar>"
  using expo_lower_ge1 [of x] expo_lower_lt1 [of x] by (cases "1 \<le> \<bar>x\<bar>") simp_all

lemma expo_upper: "x \<noteq> 0 \<Longrightarrow> \<bar>x\<bar> < 2 powi (expo x + 1)"
  using expo_upper_ge1 [of x] expo_upper_lt1 [of x] by (cases "1 \<le> \<bar>x\<bar>") simp_all

lemma pow2_mono: "a \<le> b \<Longrightarrow> (2::rat) powi a \<le> 2 powi b"
  by (rule power_int_increasing) simp_all

lemma pow2_strict_mono: "a < b \<Longrightarrow> (2::rat) powi a < 2 powi b"
  by (rule power_int_strict_increasing) simp_all

lemma pow2_le_iff: "(2::rat) powi a \<le> 2 powi b \<longleftrightarrow> a \<le> b"
  using pow2_mono [of a b] pow2_strict_mono [of b a] by (cases "a \<le> b") auto

lemma pow2_less_iff: "(2::rat) powi a < 2 powi b \<longleftrightarrow> a < b"
  using pow2_mono [of b a] pow2_strict_mono [of a b] by (cases "a < b") auto

lemma pow2_pos: "0 < (2::rat) powi a"
  by simp

lemma expo_unique:
  assumes "2 powi e \<le> \<bar>x\<bar>" and "\<bar>x\<bar> < 2 powi (e + 1)"
  shows "expo x = e"
proof -
  have "0 < \<bar>x\<bar>" using assms(1) pow2_pos [of e] by linarith
  then have x: "x \<noteq> 0" by simp
  have "2 powi expo x < (2::rat) powi (e + 1)"
    using expo_lower [OF x] assms(2) by simp
  then have "expo x < e + 1" by (simp only: pow2_less_iff)
  moreover have "(2::rat) powi e < 2 powi (expo x + 1)"
    using expo_upper [OF x] assms(1) by simp
  then have "e < expo x + 1" by (simp only: pow2_less_iff)
  ultimately show ?thesis by simp
qed

lemma roundEven_floor: "\<lfloor>r\<rfloor> \<le> roundEven r" and roundEven_floor1: "roundEven r \<le> \<lfloor>r\<rfloor> + 1"
  by (simp_all add: roundEven_def Let_def)

lemma roundEven_of_int [simp]: "roundEven (of_int k) = k"
  by (simp add: roundEven_def)

lemma roundEven_mono:
  assumes "r \<le> s"
  shows "roundEven r \<le> roundEven s"
proof (cases "\<lfloor>r\<rfloor> < \<lfloor>s\<rfloor>")
  case True
  then have "roundEven r \<le> \<lfloor>s\<rfloor>"
    using roundEven_floor1 [of r] by simp
  then show ?thesis
    using roundEven_floor [of s] by simp
next
  case False
  then have eq: "\<lfloor>r\<rfloor> = \<lfloor>s\<rfloor>"
    using floor_mono [OF assms] by simp
  have "r - of_int \<lfloor>s\<rfloor> \<le> s - of_int \<lfloor>s\<rfloor>"
    using assms by simp
  then show ?thesis
    by (auto simp: roundEven_def Let_def eq)
qed

lemma ulp_pos: "0 < ulp x"
  by (simp add: ulp_def)

lemma roundEven_nonneg: "0 \<le> r \<Longrightarrow> 0 \<le> roundEven r"
  using roundEven_mono [of 0 r] by (simp add: roundEven_def)

lemma nearest_nonneg: "0 \<le> x \<Longrightarrow> 0 \<le> nearest x"
  using ulp_pos [of x] by (simp add: nearest_def roundEven_nonneg)

lemma nearest_0 [simp]: "nearest 0 = 0"
  by (simp add: nearest_def roundEven_def)

lemma nearest_fixed:
  assumes "x = of_int k * ulp x"
  shows "nearest x = x"
proof -
  have "x / ulp x = of_int k"
    using ulp_pos [of x] assms by (simp add: field_simps)
  then show ?thesis
    using assms by (simp add: nearest_def)
qed

lemma nearest_mono_same_ulp:
  assumes "x \<le> y" and "ulp x = ulp y"
  shows "nearest x \<le> nearest y"
proof -
  have "x / ulp y \<le> y / ulp y"
    using assms(1) ulp_pos [of y] by (simp add: divide_right_mono)
  then have "roundEven (x / ulp y) \<le> roundEven (y / ulp y)"
    by (rule roundEven_mono)
  then have "(of_int (roundEven (x / ulp y)) :: rat) \<le> of_int (roundEven (y / ulp y))"
    by (simp only: of_int_le_iff)
  then show ?thesis
    using ulp_pos [of y] by (simp add: nearest_def assms(2) mult_right_mono)
qed

lemma pow2_diff_int:
  assumes "j \<le> k"
  shows "(2::rat) powi k = of_int (2 ^ nat (k - j)) * 2 powi j"
proof -
  have "(2::rat) powi k = 2 powi ((k - j) + j)" by simp
  also have "\<dots> = 2 powi (k - j) * 2 powi j"
    by (rule power_int_add) simp
  also have "(2::rat) powi (k - j) = 2 ^ nat (k - j)"
    using assms by (simp add: pow2_nat)
  finally show ?thesis by simp
qed

lemma expo_mono:
  assumes "0 < x" and "x \<le> y"
  shows "expo x \<le> expo y"
proof -
  have xy: "x \<noteq> 0" "y \<noteq> 0" using assms by simp_all
  have "2 powi expo x \<le> \<bar>x\<bar>" by (rule expo_lower [OF xy(1)])
  also have "\<dots> \<le> \<bar>y\<bar>" using assms by simp
  also have "\<dots> < 2 powi (expo y + 1)" by (rule expo_upper [OF xy(2)])
  finally have "expo x < expo y + 1" by (simp only: pow2_less_iff)
  then show ?thesis by simp
qed

lemma nearest_le_pow2:
  assumes "x \<le> 2 powi k" and "qexp x \<le> k"
  shows "nearest x \<le> 2 powi k"
proof -
  let ?n = "2 ^ nat (k - qexp x) :: int"
  have k: "(2::rat) powi k = of_int ?n * ulp x"
    unfolding ulp_def by (rule pow2_diff_int [OF assms(2)])
  have "x / ulp x \<le> of_int ?n"
    using assms(1) ulp_pos [of x] unfolding k by (simp add: field_simps)
  then have "roundEven (x / ulp x) \<le> roundEven (of_int ?n)"
    by (rule roundEven_mono)
  then have "(of_int (roundEven (x / ulp x)) :: rat) \<le> of_int ?n"
    by (simp only: roundEven_of_int of_int_le_iff)
  then show ?thesis
    unfolding k nearest_def using ulp_pos [of x] by (simp add: mult_right_mono)
qed

lemma nearest_ge_pow2:
  assumes "2 powi k \<le> x" and "qexp x \<le> k"
  shows "2 powi k \<le> nearest x"
proof -
  let ?n = "2 ^ nat (k - qexp x) :: int"
  have k: "(2::rat) powi k = of_int ?n * ulp x"
    unfolding ulp_def by (rule pow2_diff_int [OF assms(2)])
  have "of_int ?n \<le> x / ulp x"
    using assms(1) ulp_pos [of x] unfolding k by (simp add: field_simps)
  then have "roundEven (of_int ?n) \<le> roundEven (x / ulp x)"
    by (rule roundEven_mono)
  then have "(of_int ?n :: rat) \<le> of_int (roundEven (x / ulp x))"
    by (simp only: roundEven_of_int of_int_le_iff)
  then show ?thesis
    unfolding k nearest_def using ulp_pos [of x] by (simp add: mult_right_mono)
qed

lemma nearest_mono:
  assumes "0 \<le> x" and "x \<le> y"
  shows "nearest x \<le> nearest y"
proof (cases "x = 0")
  case True
  then show ?thesis
    using assms nearest_nonneg [of y] by simp
next
  case False
  then have x: "0 < x" and y: "0 < y"
    using assms by simp_all
  have ee: "expo x \<le> expo y"
    by (rule expo_mono [OF x assms(2)])
  show ?thesis
  proof (cases "qexp x = qexp y")
    case True
    then show ?thesis
      using assms(2) by (simp add: nearest_mono_same_ulp ulp_def)
  next
    case False
    with ee have lt: "expo x < expo y" and norm: "- 1022 \<le> expo y"
      by (auto simp: qexp_def max_def split: if_splits)
    have "x < 2 powi (expo x + 1)"
      using expo_upper [of x] x by simp
    also have "\<dots> \<le> 2 powi expo y"
      using lt by (simp add: pow2_mono)
    finally have "x \<le> 2 powi expo y" by simp
    moreover have "qexp x \<le> expo y"
      using lt norm by (simp add: qexp_def)
    ultimately have a: "nearest x \<le> 2 powi expo y"
      by (rule nearest_le_pow2)
    have "2 powi expo y \<le> y"
      using expo_lower [of y] y by simp
    moreover have "qexp y \<le> expo y"
      using norm by (simp add: qexp_def)
    ultimately have "2 powi expo y \<le> nearest y"
      by (rule nearest_ge_pow2)
    with a show ?thesis by simp
  qed
qed

lemma expo_pow2 [simp]: "expo (2 powi k) = k"
  by (rule expo_unique) (simp_all add: pow2_strict_mono)

lemma nearest_pow2:
  assumes "- 1074 \<le> k"
  shows "nearest (2 powi k) = 2 powi k"
proof -
  have "qexp (2 powi k) \<le> k"
    using assms by (simp add: qexp_def)
  from pow2_diff_int [OF this]
  have "2 powi k = of_int (2 ^ nat (k - qexp (2 powi k))) * ulp (2 powi k)"
    unfolding ulp_def .
  then show ?thesis
    by (rule nearest_fixed)
qed

lemma expo_scale:
  assumes "x \<noteq> 0"
  shows "expo (x * 2 powi k) = expo x + k"
proof (rule expo_unique)
  have "2 powi (expo x + k) = (2::rat) powi expo x * 2 powi k"
    by (rule power_int_add) simp
  also have "\<dots> \<le> \<bar>x\<bar> * 2 powi k"
    using expo_lower [OF assms] by (simp add: mult_right_mono)
  finally show "2 powi (expo x + k) \<le> \<bar>x * 2 powi k\<bar>"
    by (simp add: abs_mult)
  have "\<bar>x\<bar> * 2 powi k < 2 powi (expo x + 1) * 2 powi k"
    using expo_upper [OF assms] by (simp add: mult_strict_right_mono)
  also have "\<dots> = (2::rat) powi (expo x + k + 1)"
    by (simp add: power_int_add)
  finally show "\<bar>x * 2 powi k\<bar> < 2 powi (expo x + k + 1)"
    by (simp add: abs_mult)
qed

lemma nearest_scale:
  assumes "nearest x = x" and "x \<noteq> 0" and "- 1022 \<le> expo x" and "- 1022 \<le> expo x + k"
  shows "nearest (x * 2 powi k) = x * 2 powi k"
proof -
  have "qexp (x * 2 powi k) = qexp x + k"
    using assms(3,4) by (simp add: qexp_def expo_scale [OF assms(2)])
  then have u: "ulp (x * 2 powi k) = ulp x * 2 powi k"
    by (simp add: ulp_def power_int_add)
  have "x = of_int (roundEven (x / ulp x)) * ulp x"
    using assms(1) by (simp add: nearest_def)
  then have "x * 2 powi k = of_int (roundEven (x / ulp x)) * ulp (x * 2 powi k)"
    unfolding u by simp
  then show ?thesis
    by (rule nearest_fixed)
qed

lemma nearest_of_int:
  assumes "\<bar>n\<bar> < 2 ^ 53"
  shows "nearest (of_int n) = of_int n"
proof (cases "n = 0")
  case True
  then show ?thesis by simp
next
  case False
  let ?x = "of_int n :: rat"
  have x: "?x \<noteq> 0" using False by simp
  have "(of_int \<bar>n\<bar> :: rat) < of_int (2 ^ 53)"
    using assms by (simp only: of_int_less_iff)
  then have "\<bar>?x\<bar> < 2 powi 53" by simp
  with expo_lower [OF x] have "(2::rat) powi expo ?x < 2 powi 53" by simp
  then have "expo ?x < 53" by (simp only: pow2_less_iff)
  moreover have "1 \<le> \<bar>n\<bar>"
    using False by simp
  then have "(of_int 1 :: rat) \<le> of_int \<bar>n\<bar>"
    by (simp only: of_int_le_iff)
  then have "1 \<le> \<bar>?x\<bar>"
    by simp
  then have "(2::rat) powi 0 < 2 powi (expo ?x + 1)"
    using expo_upper [OF x] by simp
  then have "0 < expo ?x + 1" by (simp only: pow2_less_iff)
  ultimately have q: "qexp ?x \<le> 0"
    by (simp add: qexp_def)
  have "(1::rat) = 2 powi 0" by simp
  also have "\<dots> = of_int (2 ^ nat (0 - qexp ?x)) * 2 powi qexp ?x"
    by (rule pow2_diff_int [OF q])
  finally have "?x = of_int (n * 2 ^ nat (0 - qexp ?x)) * ulp ?x"
    unfolding ulp_def by (simp add: mult.assoc)
  then show ?thesis
    by (rule nearest_fixed)
qed

lemma fl_exact: "double x \<Longrightarrow> fl x = Finite x"
  by (auto simp: fl_def double_def Let_def)

lemma huge_pos: "0 < huge"
  unfolding huge_def by (rule pow2_pos)

lemma nearest_huge: "nearest huge = huge"
  unfolding huge_def by (rule nearest_pow2) simp

lemma fl_overflow:
  assumes "huge \<le> x"
  shows "fl x = PosInfinity"
proof -
  have "0 \<le> huge" using huge_pos by simp
  from nearest_mono [OF this assms] have "huge \<le> nearest x"
    by (simp only: nearest_huge)
  then show ?thesis
    unfolding fl_def Let_def by (simp only: if_True)
qed

lemma double_0 [simp]: "double 0"
  by (simp add: double_def huge_pos)

lemma double_dyadic:
  assumes "\<bar>n\<bar> < 2 ^ 53" and "- 1022 \<le> k" and "k \<le> 971"
  shows "double (of_int n * 2 powi k)"
proof (cases "n = 0")
  case True
  then show ?thesis by simp
next
  case False
  let ?x = "of_int n :: rat"
  have x: "?x \<noteq> 0" using False by simp
  have "1 \<le> \<bar>n\<bar>" using False by simp
  then have "(of_int 1 :: rat) \<le> of_int \<bar>n\<bar>"
    by (simp only: of_int_le_iff)
  then have "(2::rat) powi 0 \<le> \<bar>?x\<bar>" by simp
  also have "\<dots> < 2 powi (expo ?x + 1)" by (rule expo_upper [OF x])
  finally have "0 < expo ?x + 1" by (simp only: pow2_less_iff)
  then have e: "0 \<le> expo ?x" by simp
  have a: "nearest (?x * 2 powi k) = ?x * 2 powi k"
    using e assms(2) by (intro nearest_scale nearest_of_int assms(1) x) simp_all
  have "(of_int \<bar>n\<bar> :: rat) < of_int (2 ^ 53)"
    using assms(1) by (simp only: of_int_less_iff)
  then have "\<bar>?x\<bar> < 2 powi 53" by simp
  then have "\<bar>?x\<bar> * 2 powi k < 2 powi 53 * 2 powi k"
    by (simp add: mult_strict_right_mono)
  also have "\<dots> = (2::rat) powi (53 + k)"
    by (simp add: power_int_add)
  also have "\<dots> \<le> huge"
    unfolding huge_def using assms(3) by (intro pow2_mono) simp
  finally have "\<bar>?x * 2 powi k\<bar> < huge"
    by (simp add: abs_mult)
  with a show ?thesis
    by (simp add: double_def)
qed

lemma double_of_int: "\<bar>n\<bar> < 2 ^ 53 \<Longrightarrow> double (of_int n)"
  using double_dyadic [of n 0] by simp

lemma Math_round_lower:
  fixes e :: int and x :: rat
  assumes "of_int e / 2 \<le> x"
  shows "(of_int e :: rat) / 2 \<le> of_int \<lfloor>x + 1 / 2\<rfloor>"
proof -
  have "(of_int (e + 1) :: rat) / of_int 2 \<le> x + 1 / 2"
    using assms by (simp add: field_simps)
  then have "\<lfloor>(of_int (e + 1) :: rat) / of_int 2\<rfloor> \<le> \<lfloor>x + 1 / 2\<rfloor>"
    by (rule floor_mono)
  then have "(e + 1) div 2 \<le> \<lfloor>x + 1 / 2\<rfloor>"
    unfolding floor_divide_of_int_eq .
  moreover have "e \<le> 2 * ((e + 1) div 2)"
    by presburger
  ultimately have "e \<le> 2 * \<lfloor>x + 1 / 2\<rfloor>"
    by linarith
  then have "(of_int e :: rat) \<le> of_int (2 * \<lfloor>x + 1 / 2\<rfloor>)"
    by (simp only: of_int_le_iff)
  then show ?thesis
    by simp
qed

lemma Math_round_upper:
  fixes e :: int and x :: rat
  assumes "x \<le> of_int e"
  shows "\<lfloor>x + 1 / 2 :: rat\<rfloor> \<le> e"
proof -
  have "x + 1 / 2 < of_int (e + 1)"
    using assms by simp
  then have "\<lfloor>x + 1 / 2\<rfloor> < e + 1"
    by (simp only: floor_less_iff)
  then show ?thesis
    by simp
qed

lemma double_half: "double (1 / 2)"
  using double_dyadic [of 1 "- 1"] by simp

lemma double_1: "double 1"
  using double_of_int [of 1] by simp

lemma jitter_bounds:
  assumes "0 \<le> r" and "r < 1"
  shows "\<exists>j. num_add (Finite (1 / 2)) (num_mult (Finite r) (Finite (1 / 2))) = Finite j \<and>
           1 / 2 \<le> j \<and> j \<le> 1"
proof -
  have h: "nearest (1 / 2) = 1 / 2" and o: "nearest 1 = 1"
    using double_half double_1 by (simp_all add: double_def)
  have one: "1 < huge"
    using double_1 by (simp add: double_def)
  let ?v = "nearest (r * (1 / 2))"
  have v0: "0 \<le> ?v"
    using assms by (intro nearest_nonneg) simp
  have "?v \<le> nearest (1 / 2)"
    using assms by (intro nearest_mono) simp_all
  then have v1: "?v \<le> 1 / 2"
    by (simp only: h)
  have v: "fl (r * (1 / 2)) = Finite ?v"
    using v0 v1 one huge_pos by (simp add: fl_def Let_def)
  let ?j = "nearest (1 / 2 + ?v)"
  have "nearest (1 / 2) \<le> ?j"
    using v0 by (intro nearest_mono) simp_all
  then have j0: "1 / 2 \<le> ?j"
    by (simp only: h)
  have "?j \<le> nearest 1"
    using v0 v1 by (intro nearest_mono) simp_all
  then have j1: "?j \<le> 1"
    by (simp only: o)
  have "fl (1 / 2 + ?v) = Finite ?j"
    using j0 j1 one huge_pos by (simp add: fl_def Let_def)
  with v j0 j1 show ?thesis
    by simp
qed

lemma double_int_scale:
  assumes "double (of_int b)" and "0 < b" and "of_int b * 2 ^ n < huge"
  shows "double (of_int b * 2 ^ n)"
proof -
  let ?x = "of_int b :: rat"
  have x: "?x \<noteq> 0" using assms(2) by simp
  have "1 \<le> b"
    using assms(2) by simp
  then have "(of_int 1 :: rat) \<le> of_int b"
    by (simp only: of_int_le_iff)
  then have "(2::rat) powi 0 \<le> \<bar>?x\<bar>" by simp
  also have "\<dots> < 2 powi (expo ?x + 1)" by (rule expo_upper [OF x])
  finally have "0 < expo ?x + 1" by (simp only: pow2_less_iff)
  then have e: "0 \<le> expo ?x" by simp
  have "nearest (?x * 2 powi int n) = ?x * 2 powi int n"
    using assms(1) e by (intro nearest_scale x) (simp_all add: double_def)
  then show ?thesis
    using assms(2,3) by (simp add: double_def abs_mult)
qed

lemma exponential_value:
  fixes b c :: int
  assumes b: "double (of_int b)" and c: "double (of_int c)"
    and b0: "0 \<le> b" and c0: "0 \<le> c"
    and dom: "0 < b \<or> n \<le> 1023"
  shows "Math_min (Finite (of_int c)) (num_mult (Finite (of_int b)) (Math_pow2 n)) =
           Finite (of_int (min c (b * 2 ^ n)))"
proof -
  have cb: "(of_int c :: rat) < huge"
    using c c0 by (simp add: double_def)
  show ?thesis
  proof (cases "(2::rat) ^ n < huge")
    case small: True
    have "nearest (2 powi int n) = (2::rat) powi int n"
      by (rule nearest_pow2) simp
    then have p: "Math_pow2 n = Finite (2 ^ n)"
      using small by (simp add: Math_pow2_def fl_exact double_def)
    show ?thesis
    proof (cases "(of_int b :: rat) * 2 ^ n < huge")
      case True
      have "double (of_int b * 2 ^ n)"
      proof (cases "b = 0")
        case True
        then show ?thesis by simp
      next
        case False
        with b0 have "0 < b" by simp
        then show ?thesis
          using b True by (intro double_int_scale)
      qed
      then have "num_mult (Finite (of_int b)) (Math_pow2 n) = Finite (of_int b * 2 ^ n)"
        by (simp add: p fl_exact)
      then show ?thesis
        by (simp add: of_int_min)
    next
      case False
      then have "fl (of_int b * 2 ^ n) = PosInfinity"
        by (intro fl_overflow) simp
      moreover have "(of_int c :: rat) \<le> of_int b * 2 ^ n"
        using cb False by simp
      then have "(of_int c :: rat) \<le> of_int (b * 2 ^ n)"
        by simp
      then have "c \<le> b * 2 ^ n"
        by (simp only: of_int_le_iff)
      ultimately show ?thesis
        by (simp add: p min_def)
    qed
  next
    case big: False
    then have p: "Math_pow2 n = PosInfinity"
      unfolding Math_pow2_def by (intro fl_overflow) simp
    have "\<not> n \<le> 1023"
    proof
      assume "n \<le> 1023"
      then have "(2::rat) powi int n < 2 powi 1024"
        by (intro pow2_strict_mono) simp
      with big show False
        by (simp add: huge_def)
    qed
    with dom have pos: "0 < b" by simp
    then have "(1::rat) \<le> of_int b"
      by simp
    then have "(2::rat) ^ n * 1 \<le> 2 ^ n * of_int b"
      by (intro mult_left_mono) simp_all
    then have "(2::rat) ^ n \<le> of_int b * 2 ^ n"
      by (simp add: mult.commute)
    moreover have "(of_int c :: rat) \<le> 2 ^ n"
      using big cb by linarith
    ultimately have "(of_int c :: rat) \<le> of_int b * 2 ^ n"
      by (rule order_trans [rotated])
    then have "(of_int c :: rat) \<le> of_int (b * 2 ^ n)"
      by simp
    then have "c \<le> b * 2 ^ n"
      by (simp only: of_int_le_iff)
    then show ?thesis
      using pos by (simp add: p min_def)
  qed
qed

lemma double_capped:
  fixes b c :: int
  assumes b: "double (of_int b)" and c: "double (of_int c)" and b0: "0 \<le> b" and c0: "0 \<le> c"
  shows "double (of_int (min c (b * 2 ^ n)))"
proof (cases "c \<le> b * 2 ^ n")
  case True
  then show ?thesis using c by (simp add: min_def)
next
  case False
  then have "b * 2 ^ n < c" by simp
  then have "(of_int (b * 2 ^ n) :: rat) < of_int c"
    by (simp only: of_int_less_iff)
  moreover have "(of_int c :: rat) < huge"
    using c c0 by (simp add: double_def)
  ultimately have small: "(of_int b :: rat) * 2 ^ n < huge"
    by simp
  have "double (of_int b * 2 ^ n)"
  proof (cases "b = 0")
    case True
    then show ?thesis by simp
  next
    case False
    with b0 have "0 < b" by simp
    then show ?thesis
      using b small by (intro double_int_scale)
  qed
  with False show ?thesis
    by (simp add: min_def)
qed

lemma double_halved:
  fixes e :: int
  assumes "double (of_int e)" and "0 \<le> e"
  shows "double (of_int e / 2)"
proof (cases "e = 0")
  case True
  then show ?thesis by simp
next
  case False
  let ?x = "of_int e :: rat"
  have x: "?x \<noteq> 0" using False by simp
  have "1 \<le> e" using False assms(2) by simp
  then have "(of_int 1 :: rat) \<le> of_int e"
    by (simp only: of_int_le_iff)
  then have "(2::rat) powi 0 \<le> \<bar>?x\<bar>" by simp
  also have "\<dots> < 2 powi (expo ?x + 1)" by (rule expo_upper [OF x])
  finally have "0 < expo ?x + 1" by (simp only: pow2_less_iff)
  then have e: "0 \<le> expo ?x" by simp
  have "nearest (?x * 2 powi (- 1)) = ?x * 2 powi (- 1)"
    using assms(1) e by (intro nearest_scale x) (simp_all add: double_def)
  moreover have "\<bar>?x / 2\<bar> < huge"
    using assms by (simp add: double_def)
  ultimately show ?thesis
    by (simp add: double_def)
qed

section \<open>Properties of the classifier and of the backoff\<close>

lemma mockFallback_created:
  "ms \<noteq> [] \<Longrightarrow> createFallbackModel (mockConfig ms (Some n)) = Inr (mockFallback ms n)"
  by (simp add: createFallbackModel_def mockConfig_def mockFallback_def)

lemma created_maxRetries:
  "createFallbackModel config = Inr fm \<Longrightarrow> maxRetriesPerModel config = Some n \<Longrightarrow>
   fm_maxRetriesPerModel fm = n"
  by (auto simp: createFallbackModel_def Let_def split: if_splits)

subsection \<open>The classifier\<close>

text \<open>
  Claim C2, as stated: every failure with a status code in \<open>[400, 500)\<close> other than 429
  is classified \<open>Throw\<close>, whatever its retryable flag. It fails: the flag is tested
  before the client-error case, so a 408 that the SDK marks retryable is retried.
\<close>

theorem C2_counterexample:
  "(400::int) \<le> 408 \<and> (408::int) < 500 \<and> (408::int) \<noteq> 429 \<and>
   defaultShouldRetry (APICallError (Some 408) True ''Request Timeout'') = Retry \<and>
   defaultShouldRetry (APICallError (Some 408) True ''Request Timeout'') \<noteq> Throw"
  by simp

text \<open>
  Claim C2, amended: every API-call failure with a status code in \<open>[400, 500)\<close> other
  than 429 whose retryable flag is not set is classified \<open>Throw\<close>.
\<close>

theorem C2_client_error_not_retryable_throws:
  assumes "400 \<le> status" and "status < 500" and "status \<noteq> 429" and "\<not> retryable"
  shows "defaultShouldRetry (APICallError (Some status) retryable msg) = Throw"
  using assms by simp

theorem C2_client_error_not_retryable_throws_witness:
  "(400::int) \<le> 404 \<and> (404::int) < 500 \<and> (404::int) \<noteq> 429 \<and> \<not> False \<and>
   defaultShouldRetry (APICallError (Some 404) False ''Not Found'') = Throw"
  using C2_client_error_not_retryable_throws [of 404 False "''Not Found''"] by simp

text \<open>
  Claim C8, as stated: every network-transport failure (connection, DNS or TLS level) is
  classified \<open>Retry\<close>. It fails: the classifier looks only for a \<open>TypeError\<close> whose
  message contains \<open>fetch\<close>. The connection failure of a WebKit \<open>fetch\<close>, a \<open>TypeError\<close>
  with the message \<open>Load failed\<close>, and the DNS failure of Node, an \<open>Error\<close> with the message
  \<open>getaddrinfo ENOTFOUND ...\<close>, fall through to the last line and are classified \<open>Throw\<close>.
\<close>

theorem C8_counterexample:
  "defaultShouldRetry (TypeError ''Load failed'') = Throw \<and>
   defaultShouldRetry (OtherError ''getaddrinfo ENOTFOUND api.example.com'') = Throw"
  by simp

text \<open>
  Claim C8, amended: a failure that is not an API-call failure is classified \<open>Retry\<close>
  exactly when it is a \<open>TypeError\<close> whose message contains \<open>fetch\<close>, and \<open>Throw\<close>
  otherwise. (The classifier never answers \<open>Fallback\<close> for such a failure.)
\<close>

theorem C8_retried_iff_fetch_type_error:
  assumes "\<forall>status retryable msg. f \<noteq> APICallError status retryable msg"
  shows "defaultShouldRetry f =
           (if \<exists>msg. f = TypeError msg \<and> str_includes msg ''fetch'' then Retry else Throw)"
proof (cases f)
  case (APICallError status retryable msg)
  with assms show ?thesis by blast
qed simp_all

theorem C8_retried_iff_fetch_type_error_witness:
  "(\<forall>status retryable msg. TypeError ''fetch failed'' \<noteq> APICallError status retryable msg) \<and>
   (\<forall>status retryable msg. TypeError ''Load failed'' \<noteq> APICallError status retryable msg) \<and>
   defaultShouldRetry (TypeError ''fetch failed'') = Retry \<and>
   defaultShouldRetry (TypeError ''Load failed'') = Throw"
proof -
  have a: "\<forall>status retryable msg. TypeError ''fetch failed'' \<noteq> APICallError status retryable msg"
    and b: "\<forall>status retryable msg. TypeError ''Load failed'' \<noteq> APICallError status retryable msg"
    by simp_all
  show ?thesis
    using a b C8_retried_iff_fetch_type_error [OF a] C8_retried_iff_fetch_type_error [OF b] by simp
qed

subsection \<open>The backoff\<close>

text \<open>
  Claim C7, as stated: for every attempt number, base delay and cap the delay lies
  between half the capped exponential and the capped exponential, for every draw. It
  fails for a base delay that is not a whole number: with base 2.5, attempt 0 and the
  draw 0.125 the jitter is 0.5625, the product 1.40625 is rounded to 1, and the lower
  bound is 1.25. Every number of this computation is a double, so no operation rounds.
\<close>

theorem C7_counterexample:
  "double (5 / 2) \<and> double 30000 \<and> (0::rat) \<le> 1 / 8 \<and> (1 / 8 :: rat) < 1 \<and>
   calculateDelay 0 (Finite (5 / 2)) (Finite 30000) (1 / 8) = Finite 1 \<and>
   (1 :: rat) < 1 / 2 * min 30000 (5 / 2 * 2 ^ 0)"
proof -
  have "\<lfloor>61 / 32 :: rat\<rfloor> = 1"
    by (rule floor_unique) simp_all
  then show ?thesis
    using double_dyadic [of 5 "- 1"] double_dyadic [of 45 "- 5"] double_dyadic [of 1 "- 4"]
      double_dyadic [of 9 "- 4"] double_of_int [of 1] double_of_int [of 30000]
    by (simp add: calculateDelay_def Math_pow2_def fl_exact)
qed

text \<open>
  A second way out of the interval: a base delay of 0 and an attempt number from 1024
  on, where \<open>Math.pow(2, attempt)\<close> is \<open>Infinity\<close> and \<open>0 * Infinity\<close> is NaN, which
  \<open>Math.min\<close> and \<open>Math.round\<close> hand on.
\<close>

lemma calculateDelay_zero_base_overflow:
  "calculateDelay 1024 (Finite 0) (Finite 30000) 0 = NaN"
proof -
  have "huge \<le> 2 ^ 1024"
    unfolding huge_def using pow2_nat [of 1024] by simp
  then have "Math_pow2 1024 = PosInfinity"
    unfolding Math_pow2_def by (rule fl_overflow)
  then show ?thesis
    by (simp add: calculateDelay_def)
qed

text \<open>
  Claim C7, amended: for every attempt number \<open>n\<close>, every base delay and cap that are
  non-negative whole numbers of milliseconds (and doubles), with a base delay above 0 or
  \<open>n \<le> 1023\<close>, and every draw in \<open>[0, 1)\<close>, the delay is a whole number in
  \<open>[0.5 * min(cap, base * 2^n), min(cap, base * 2^n)]\<close>. The bounds are those of the
  claim, in exact arithmetic; the delay is the one computed in double arithmetic.
\<close>

theorem C7_delay_bounds_whole_milliseconds:
  fixes b c :: int and r :: rat
  assumes "double (of_int b)" and "double (of_int c)"
    and "0 \<le> b" and "0 \<le> c" and "0 \<le> r" and "r < 1"
    and "0 < b \<or> n \<le> 1023"
  shows "\<exists>d. calculateDelay n (Finite (of_int b)) (Finite (of_int c)) r = Finite (of_int d) \<and>
           (1 / 2 :: rat) * min (of_int c) (of_int b * 2 ^ n) \<le> of_int d \<and>
           (of_int d :: rat) \<le> min (of_int c) (of_int b * 2 ^ n)"
proof -
  define e :: int where "e = min c (b * 2 ^ n)"
  have e_rat: "min (of_int c) (of_int b * 2 ^ n) = (of_int e :: rat)"
    by (simp add: e_def of_int_min)
  have e0: "0 \<le> e" using assms(3,4) by (simp add: e_def)
  have e0r: "(0::rat) \<le> of_int e" using e0 by simp
  have de: "double (of_int e)"
    unfolding e_def by (rule double_capped [OF assms(1-4)])
  have dh: "double (of_int e / 2)"
    by (rule double_halved [OF de e0])
  have ex: "Math_min (Finite (of_int c)) (num_mult (Finite (of_int b)) (Math_pow2 n)) =
      Finite (of_int e)"
    unfolding e_def by (rule exponential_value [OF assms(1-4) assms(7)])
  from jitter_bounds [OF assms(5,6)]
  obtain j where jit: "num_add (Finite (1 / 2)) (num_mult (Finite r) (Finite (1 / 2))) = Finite j"
    and j_lo: "1 / 2 \<le> j" and j_hi: "j \<le> 1"
    by blast
  let ?p = "nearest (of_int e * j)"
  have lo: "(of_int e :: rat) / 2 \<le> of_int e * j"
    using mult_left_mono [OF j_lo e0r] by simp
  have hi: "of_int e * j \<le> (of_int e :: rat)"
    using mult_left_mono [OF j_hi e0r] by simp
  have "nearest (of_int e / 2) \<le> ?p"
    using e0r lo by (intro nearest_mono) simp_all
  then have p_lo: "(of_int e :: rat) / 2 \<le> ?p"
    using dh by (simp add: double_def)
  have "?p \<le> nearest (of_int e)"
    using e0r j_lo hi by (intro nearest_mono) simp_all
  then have p_hi: "?p \<le> of_int e"
    using de by (simp add: double_def)
  have "(of_int e :: rat) < huge"
    using de e0 by (simp add: double_def)
  then have prod: "fl (of_int e * j) = Finite ?p"
    using p_lo p_hi e0r huge_pos by (simp add: fl_def Let_def)
  have cd: "calculateDelay n (Finite (of_int b)) (Finite (of_int c)) r =
      Finite (of_int \<lfloor>?p + 1 / 2\<rfloor>)"
    unfolding calculateDelay_def Let_def ex jit by (simp add: prod)
  have "(of_int e :: rat) / 2 \<le> of_int \<lfloor>?p + 1 / 2\<rfloor>"
    by (rule Math_round_lower [OF p_lo])
  moreover have "\<lfloor>?p + 1 / 2\<rfloor> \<le> e"
    by (rule Math_round_upper [OF p_hi])
  then have "(of_int \<lfloor>?p + 1 / 2\<rfloor> :: rat) \<le> of_int e"
    by (simp only: of_int_le_iff)
  ultimately show ?thesis
    unfolding cd e_rat by (intro exI [of _ "\<lfloor>?p + 1 / 2\<rfloor>"]) simp
qed

theorem C7_delay_bounds_whole_milliseconds_witness:
  "double (of_int 1000) \<and> double (of_int 30000) \<and> double (of_int 1) \<and>
   (0::int) \<le> 1000 \<and> (0::int) \<le> 30000 \<and> (0::int) \<le> 1 \<and>
   (0::rat) \<le> 1 / 2 \<and> (1 / 2 :: rat) < 1 \<and>
   ((0::int) < 1000 \<or> (3::nat) \<le> 1023) \<and> ((0::int) < 1 \<or> (1100::nat) \<le> 1023) \<and>
   (\<exists>d. calculateDelay 3 (Finite (of_int 1000)) (Finite (of_int 30000)) (1 / 2) = Finite (of_int d) \<and>
      (1 / 2 :: rat) * min (of_int 30000) (of_int 1000 * 2 ^ 3) \<le> of_int d \<and>
      (of_int d :: rat) \<le> min (of_int 30000) (of_int 1000 * 2 ^ 3)) \<and>
   (\<exists>d. calculateDelay 1100 (Finite (of_int 1)) (Finite (of_int 30000)) (1 / 2) = Finite (of_int d) \<and>
      (1 / 2 :: rat) * min (of_int 30000) (of_int 1 * 2 ^ 1100) \<le> of_int d \<and>
      (of_int d :: rat) \<le> min (of_int 30000) (of_int 1 * 2 ^ 1100))"
proof -
  have b: "double (of_int 1000)" and c: "double (of_int 30000)" and u: "double (of_int 1)"
    by (rule double_of_int, simp)+
  have r: "(0::rat) \<le> 1 / 2" "(1 / 2 :: rat) < 1"
    by simp_all
  have "\<exists>d. calculateDelay 3 (Finite (of_int 1000)) (Finite (of_int 30000)) (1 / 2) = Finite (of_int d) \<and>
      (1 / 2 :: rat) * min (of_int 30000) (of_int 1000 * 2 ^ 3) \<le> of_int d \<and>
      (of_int d :: rat) \<le> min (of_int 30000) (of_int 1000 * 2 ^ 3)"
    by (rule C7_delay_bounds_whole_milliseconds [OF b c _ _ r]) simp_all
  moreover
  have "\<exists>d. calculateDelay 1100 (Finite (of_int 1)) (Finite (of_int 30000)) (1 / 2) = Finite (of_int d) \<and>
      (1 / 2 :: rat) * min (of_int 30000) (of_int 1 * 2 ^ 1100) \<le> of_int d \<and>
      (of_int d :: rat) \<le> min (of_int 30000) (of_int 1 * 2 ^ 1100)"
    by (rule C7_delay_bounds_whole_milliseconds [OF u c _ _ r]) simp_all
  ultimately show ?thesis
    using b c u by simp
qed

subsection \<open>Construction\<close>

text \<open>
  Claim C9: constructing the composite with an empty list of backends fails with the
  configuration error, whatever the rest of the configuration; no composite is
  returned, so none of its operations can be invoked.
\<close>

theorem C9_empty_chain_is_rejected:
  assumes "models config = []"
  shows "createFallbackModel config = Inl ''createFallbackModel requires at least one model''"
  using assms by (simp add: createFallbackModel_def)

theorem C9_empty_chain_is_rejected_witness:
  "models (mockConfig [] (Some 2)) = [] \<and>
   createFallbackModel (mockConfig [] (Some 2)) =
     Inl ''createFallbackModel requires at least one model''"
proof -
  have h: "models (mockConfig [] (Some 2)) = []"
    by (simp add: mockConfig_def)
  show ?thesis
    using h C9_empty_chain_is_rejected [OF h] by simp
qed

section \<open>Properties of the orchestrator\<close>

subsection \<open>One iteration of the inner loop\<close>

lemma trace_notify: "trace (notify b e w) = trace w @ (if b then [Emit e] else [])"
  by (simp add: notify_def)

lemma cancellation_Some:
  "cancellation signal t = Some c \<Longrightarrow> \<exists>s. signal = Some s \<and> c = abortReason s"
  by (auto simp: cancellation_def split: option.splits if_splits)

lemma sleep_Resolved:
  "sleep ms signal w = (Resolved, w') \<Longrightarrow>
   w' = w\<lparr>now := now w + 1, trace := trace w @ [Wait ms True]\<rparr>"
  by (auto simp: sleep_def split: option.splits)

lemma sleep_Rejected:
  "sleep ms signal w = (Rejected c, w') \<Longrightarrow>
   (\<exists>s. signal = Some s \<and> c = abortReason s) \<and>
   (w' = w \<or> w' = w\<lparr>now := now w + 1, trace := trace w @ [Wait ms False]\<rparr>)"
  by (auto simp: sleep_def split: option.splits dest: cancellation_Some)

lemma attemptLoop_budget_over:
  "\<not> int attempt \<le> fm_maxRetriesPerModel fm \<Longrightarrow>
   attemptLoop fm operation random options modelIndex attempt errors w = (None, errors, w)"
  by (simp add: attemptLoop.simps)

lemma attemptLoop_cancelled:
  assumes "int attempt \<le> fm_maxRetriesPerModel fm"
    and "cancellation (abortSignal options) (now w) = Some c"
  shows "attemptLoop fm operation random options modelIndex attempt errors w =
           (Some (Thrown (Failure c)), errors, w)"
  using assms by (simp add: attemptLoop.simps [of fm operation random options modelIndex attempt])

lemma attemptLoop_returned:
  assumes "int attempt \<le> fm_maxRetriesPerModel fm"
    and "cancellation (abortSignal options) (now w) = None"
    and "operation (fm_models fm ! modelIndex) (now w) = Inr result"
  shows "attemptLoop fm operation random options modelIndex attempt errors w =
           (Some (Returned result), errors, invoked modelIndex w)"
  using assms by (simp add: attemptLoop.simps [of fm operation random options modelIndex attempt])

lemma attemptLoop_fatal:
  assumes "int attempt \<le> fm_maxRetriesPerModel fm"
    and "cancellation (abortSignal options) (now w) = None"
    and "operation (fm_models fm ! modelIndex) (now w) = Inl error"
    and "fm_shouldRetry fm error = Throw"
  shows "attemptLoop fm operation random options modelIndex attempt errors w =
           (Some (Thrown (Failure error)), errors, caught fm modelIndex error w)"
  using assms by (simp add: attemptLoop.simps [of fm operation random options modelIndex attempt])

lemma attemptLoop_advance:
  assumes "int attempt \<le> fm_maxRetriesPerModel fm"
    and "cancellation (abortSignal options) (now w) = None"
    and "operation (fm_models fm ! modelIndex) (now w) = Inl error"
    and "fm_shouldRetry fm error \<noteq> Throw"
    and "\<not> (fm_shouldRetry fm error = Retry \<and> int attempt < fm_maxRetriesPerModel fm)"
  shows "attemptLoop fm operation random options modelIndex attempt errors w =
           (None, errors @ [(fm_models fm ! modelIndex, error)],
            advancing fm modelIndex attempt error w)"
  using assms
  by (auto simp add: attemptLoop.simps [of fm operation random options modelIndex attempt] Let_def)

lemma attemptLoop_retry:
  assumes "int attempt < fm_maxRetriesPerModel fm"
    and "cancellation (abortSignal options) (now w) = None"
    and "operation (fm_models fm ! modelIndex) (now w) = Inl error"
    and "fm_shouldRetry fm error = Retry"
  shows "attemptLoop fm operation random options modelIndex attempt errors w =
           (case sleep (backoff fm random attempt (caught fm modelIndex error w))
                   (abortSignal options) (retrying fm random modelIndex attempt error w) of
              (Rejected c, w') \<Rightarrow>
                (Some (Thrown (Failure c)), errors @ [(fm_models fm ! modelIndex, error)], w')
            | (Resolved, w') \<Rightarrow>
                attemptLoop fm operation random options modelIndex (attempt + 1)
                  (errors @ [(fm_models fm ! modelIndex, error)]) w')"
  using assms
  by (simp add: attemptLoop.simps [of fm operation random options modelIndex attempt] Let_def
      split: prod.splits sleep_result.splits)

text \<open>
  Every property of the inner loop is proved along its seven ways through one
  iteration: the budget is over, the signal is active, the operation returns, the
  failure is fatal, the chain advances, the backoff sleep is rejected, or it resolves
  and the loop goes on with the next attempt.
\<close>

lemma attemptLoop_cases [case_names over cancelled returned fatal advance rejected retried]:
  assumes over: "\<And>attempt errors w.
      \<not> int attempt \<le> fm_maxRetriesPerModel fm \<Longrightarrow> P attempt errors w (None, errors, w)"
    and cancelled: "\<And>attempt errors w c.
      int attempt \<le> fm_maxRetriesPerModel fm \<Longrightarrow>
      cancellation (abortSignal options) (now w) = Some c \<Longrightarrow>
      P attempt errors w (Some (Thrown (Failure c)), errors, w)"
    and returned: "\<And>attempt errors w result.
      int attempt \<le> fm_maxRetriesPerModel fm \<Longrightarrow>
      cancellation (abortSignal options) (now w) = None \<Longrightarrow>
      operation (fm_models fm ! modelIndex) (now w) = Inr result \<Longrightarrow>
      P attempt errors w (Some (Returned result), errors, invoked modelIndex w)"
    and fatal: "\<And>attempt errors w error.
      int attempt \<le> fm_maxRetriesPerModel fm \<Longrightarrow>
      cancellation (abortSignal options) (now w) = None \<Longrightarrow>
      operation (fm_models fm ! modelIndex) (now w) = Inl error \<Longrightarrow>
      fm_shouldRetry fm error = Throw \<Longrightarrow>
      P attempt errors w (Some (Thrown (Failure error)), errors, caught fm modelIndex error w)"
    and advance: "\<And>attempt errors w error.
      int attempt \<le> fm_maxRetriesPerModel fm \<Longrightarrow>
      cancellation (abortSignal options) (now w) = None \<Longrightarrow>
      operation (fm_models fm ! modelIndex) (now w) = Inl error \<Longrightarrow>
      fm_shouldRetry fm error \<noteq> Throw \<Longrightarrow>
      \<not> (fm_shouldRetry fm error = Retry \<and> int attempt < fm_maxRetriesPerModel fm) \<Longrightarrow>
      P attempt errors w
        (None, errors @ [(fm_models fm ! modelIndex, error)], advancing fm modelIndex attempt error w)"
    and rejected: "\<And>attempt errors w error c w'.
      int attempt < fm_maxRetriesPerModel fm \<Longrightarrow>
      cancellation (abortSignal options) (now w) = None \<Longrightarrow>
      operation (fm_models fm ! modelIndex) (now w) = Inl error \<Longrightarrow>
      fm_shouldRetry fm error = Retry \<Longrightarrow>
      sleep (backoff fm random attempt (caught fm modelIndex error w)) (abortSignal options)
        (retrying fm random modelIndex attempt error w) = (Rejected c, w') \<Longrightarrow>
      P attempt errors w
        (Some (Thrown (Failure c)), errors @ [(fm_models fm ! modelIndex, error)], w')"
    and retried: "\<And>attempt errors w error w'.
      int attempt < fm_maxRetriesPerModel fm \<Longrightarrow>
      cancellation (abortSignal options) (now w) = None \<Longrightarrow>
      operation (fm_models fm ! modelIndex) (now w) = Inl error \<Longrightarrow>
      fm_shouldRetry fm error = Retry \<Longrightarrow>
      sleep (backoff fm random attempt (caught fm modelIndex error w)) (abortSignal options)
        (retrying fm random modelIndex attempt error w) = (Resolved, w') \<Longrightarrow>
      P (attempt + 1) (errors @ [(fm_models fm ! modelIndex, error)]) w'
        (attemptLoop fm operation random options modelIndex (attempt + 1)
           (errors @ [(fm_models fm ! modelIndex, error)]) w') \<Longrightarrow>
      P attempt errors w
        (attemptLoop fm operation random options modelIndex (attempt + 1)
           (errors @ [(fm_models fm ! modelIndex, error)]) w')"
  shows "P attempt errors w (attemptLoop fm operation random options modelIndex attempt errors w)"
  using assms
proof (induction fm operation random options modelIndex attempt errors w rule: attemptLoop.induct)
  case (1 fm operation random options modelIndex attempt errors w)
  let ?m = "fm_models fm ! modelIndex"
  let ?run = "attemptLoop fm operation random options modelIndex attempt errors w"
  show ?case
  proof (cases "int attempt \<le> fm_maxRetriesPerModel fm")
    case False
    show ?thesis
      unfolding attemptLoop_budget_over [OF False] by (rule "1.prems"(1) [OF False])
  next
    case budget: True
    show ?thesis
    proof (cases "cancellation (abortSignal options) (now w)")
      case (Some c)
      show ?thesis
        unfolding attemptLoop_cancelled [OF budget Some] by (rule "1.prems"(2) [OF budget Some])
    next
      case live: None
      show ?thesis
      proof (cases "operation ?m (now w)")
        case (Inr result)
        show ?thesis
          unfolding attemptLoop_returned [where operation = operation, OF budget live Inr]
          by (rule "1.prems"(3) [OF budget live Inr])
      next
        case (Inl error)
        show ?thesis
        proof (cases "fm_shouldRetry fm error = Throw")
          case True
          show ?thesis
            unfolding attemptLoop_fatal [where operation = operation, OF budget live Inl True]
            by (rule "1.prems"(4) [OF budget live Inl True])
        next
          case nonfatal: False
          show ?thesis
          proof (cases "fm_shouldRetry fm error = Retry \<and> int attempt < fm_maxRetriesPerModel fm")
            case False
            show ?thesis
              unfolding attemptLoop_advance [where operation = operation, OF budget live Inl nonfatal False]
              by (rule "1.prems"(5) [OF budget live Inl nonfatal False])
          next
            case True
            then have retry: "fm_shouldRetry fm error = Retry"
              and more: "int attempt < fm_maxRetriesPerModel fm"
              by simp_all
            note step = attemptLoop_retry [where operation = operation and random = random and errors = errors, OF more live Inl retry]
            obtain r w' where sl: "sleep (backoff fm random attempt (caught fm modelIndex error w))
                (abortSignal options) (retrying fm random modelIndex attempt error w) = (r, w')"
              by (cases "sleep (backoff fm random attempt (caught fm modelIndex error w))
                (abortSignal options) (retrying fm random modelIndex attempt error w)")
            show ?thesis
            proof (cases r)
              case (Rejected c)
              have eq: "?run = (Some (Thrown (Failure c)), errors @ [(?m, error)], w')"
                using step sl Rejected by simp
              show ?thesis
                unfolding eq by (rule "1.prems"(6) [OF more live Inl retry sl [unfolded Rejected]])
            next
              case Resolved
              have nn: "\<not> \<not> int attempt \<le> fm_maxRetriesPerModel fm"
                using budget by simp
              have ih: "P (attempt + 1) (errors @ [(?m, error)]) w'
                    (attemptLoop fm operation random options modelIndex (attempt + 1)
                       (errors @ [(?m, error)]) w')"
                by (rule "1.IH" [OF nn live refl refl Inl refl refl nonfatal refl True refl refl
                      sl [symmetric] Resolved]) (fact "1.prems")+
              have eq: "?run = attemptLoop fm operation random options modelIndex (attempt + 1)
                       (errors @ [(?m, error)]) w'"
                using step sl Resolved by simp
              show ?thesis
                unfolding eq by (rule "1.prems"(7) [OF more live Inl retry sl [unfolded Resolved] ih])
            qed
          qed
        qed
      qed
    qed
  qed
qed

subsection \<open>No attempts, and cancellation before the first one\<close>

lemma modelLoop_no_attempts:
  "fm_maxRetriesPerModel fm < 0 \<Longrightarrow>
   modelLoop fm operation random options modelIndex errors w =
     (Thrown (AllModelsExhaustedError errors), w)"
proof (induction fm operation random options modelIndex errors w rule: modelLoop.induct)
  case (1 fm operation random options modelIndex errors w)
  have skip: "attemptLoop fm operation random options modelIndex 0 errors w = (None, errors, w)"
    using "1.prems" by (simp add: attemptLoop_budget_over)
  show ?case
  proof (cases "modelIndex < length (fm_models fm)")
    case True
    then have "modelLoop fm operation random options modelIndex errors w =
        modelLoop fm operation random options (modelIndex + 1) errors w"
      by (simp add: modelLoop.simps [of fm operation random options modelIndex] skip)
    also have "\<dots> = (Thrown (AllModelsExhaustedError errors), w)"
      using "1.IH" [OF True skip [symmetric] refl refl] "1.prems" by simp
    finally show ?thesis .
  next
    case False
    then show ?thesis
      by (simp add: modelLoop.simps [of fm operation random options modelIndex])
  qed
qed

text \<open>
  Claim C10: when \<open>maxRetriesPerModel\<close> is configured negative, an invocation of the
  composite calls no backend and no observer (the trace is empty) and throws the
  \<open>AllModelsExhaustedError\<close> with an empty \<open>errors\<close> list. This holds for every operation
  (generate and stream) and every options bag.
\<close>

theorem C10_negative_budget_exhausts_at_once:
  assumes "createFallbackModel config = Inr fm"
    and "maxRetriesPerModel config = Some n"
    and "n < 0"
  shows "executeWithFallback fm operation random options =
           (Thrown (AllModelsExhaustedError []), \<lparr>now = 0, trace = []\<rparr>)"
proof -
  have "fm_maxRetriesPerModel fm < 0"
    using assms created_maxRetries by blast
  then show ?thesis
    unfolding executeWithFallback_def by (rule modelLoop_no_attempts)
qed

theorem C10_negative_budget_exhausts_at_once_witness:
  "createFallbackModel (mockConfig [mockModel ''primary'' Succeed] (Some (- 1)))
     = Inr (mockFallback [mockModel ''primary'' Succeed] (- 1)) \<and>
   maxRetriesPerModel (mockConfig [mockModel ''primary'' Succeed] (Some (- 1))) = Some (- 1) \<and>
   (- 1 :: int) < 0 \<and>
   executeWithFallback (mockFallback [mockModel ''primary'' Succeed] (- 1))
       (\<lambda>model. doGenerate model plainOptions) (\<lambda>t. 0) plainOptions =
     (Thrown (AllModelsExhaustedError []), \<lparr>now = 0, trace = []\<rparr>)"
proof -
  have a: "createFallbackModel (mockConfig [mockModel ''primary'' Succeed] (Some (- 1)))
     = Inr (mockFallback [mockModel ''primary'' Succeed] (- 1))"
    by (simp add: mockFallback_created)
  have b: "maxRetriesPerModel (mockConfig [mockModel ''primary'' Succeed] (Some (- 1))) = Some (- 1)"
    by (simp add: mockConfig_def)
  have c: "(- 1 :: int) < 0" by simp
  show ?thesis
    using a b c C10_negative_budget_exhausts_at_once [OF a b c] by simp
qed

text \<open>
  Claim C5, as stated: with the signal active before the first attempt the invocation
  fails with the cancellation failure, for every chain and configuration. It fails
  for a negative \<open>maxRetriesPerModel\<close>: the signal is read at the top of an attempt,
  and there is none, so the \<open>AllModelsExhaustedError\<close> is thrown instead.
\<close>

theorem C5_counterexample:
  "cancellation (abortSignal (abortingOptions 0 None)) 0 = Some (DOMException ''Aborted'' ''AbortError'') \<and>
   fst (fallback_doGenerate (mockFallback [mockModel ''primary'' Succeed] (- 1)) (\<lambda>t. 0)
         (abortingOptions 0 None)) = Thrown (AllModelsExhaustedError [])"
proof -
  have "fm_maxRetriesPerModel (mockFallback [mockModel ''primary'' Succeed] (- 1)) < 0"
    by (simp add: mockFallback_def)
  then show ?thesis
    by (simp add: fallback_doGenerate_def executeWithFallback_def modelLoop_no_attempts
        cancellation_def abortingOptions_def signal_aborted_def abortReason_def)
qed

text \<open>
  Claim C5, amended: with the signal active before the first attempt, a non-empty
  chain and \<open>maxRetriesPerModel \<ge> 0\<close>, the invocation throws the cancellation failure
  (the signal's reason, or the \<open>AbortError\<close> exception), no backend operation is invoked
  and no Error, Retry or Fallback event is emitted: the trace is empty.
\<close>

theorem C5_cancelled_before_first_attempt:
  assumes "fm_models fm \<noteq> []"
    and "0 \<le> fm_maxRetriesPerModel fm"
    and "abortSignal options = Some s"
    and "firesAt s = Some 0"
  shows "executeWithFallback fm operation random options =
           (Thrown (Failure (abortReason s)), \<lparr>now = 0, trace = []\<rparr>)"
proof -
  have c: "cancellation (abortSignal options) 0 = Some (abortReason s)"
    using assms by (simp add: cancellation_def signal_aborted_def)
  have "attemptLoop fm operation random options 0 0 [] \<lparr>now = 0, trace = []\<rparr> =
      (Some (Thrown (Failure (abortReason s))), [], \<lparr>now = 0, trace = []\<rparr>)"
    using assms(2) c by (simp add: attemptLoop.simps [of fm operation random options 0 0])
  then show ?thesis
    using assms(1)
    by (simp add: executeWithFallback_def modelLoop.simps [of fm operation random options 0])
qed

theorem C5_cancelled_before_first_attempt_witness:
  "fm_models (mockFallback [mockModel ''primary'' Succeed] 0) \<noteq> [] \<and>
   0 \<le> fm_maxRetriesPerModel (mockFallback [mockModel ''primary'' Succeed] 0) \<and>
   abortSignal (abortingOptions 0 None) = Some \<lparr>firesAt = Some 0, reason = None\<rparr> \<and>
   firesAt \<lparr>firesAt = Some 0, reason = None\<rparr> = Some 0 \<and>
   executeWithFallback (mockFallback [mockModel ''primary'' Succeed] 0)
       (\<lambda>model. doGenerate model (abortingOptions 0 None)) (\<lambda>t. 0) (abortingOptions 0 None) =
     (Thrown (Failure (DOMException ''Aborted'' ''AbortError'')), \<lparr>now = 0, trace = []\<rparr>)"
proof -
  have a: "fm_models (mockFallback [mockModel ''primary'' Succeed] 0) \<noteq> []"
    by (simp add: mockFallback_def)
  have b: "0 \<le> fm_maxRetriesPerModel (mockFallback [mockModel ''primary'' Succeed] 0)"
    by (simp add: mockFallback_def)
  have c: "abortSignal (abortingOptions 0 None) = Some \<lparr>firesAt = Some 0, reason = None\<rparr>"
    by (simp add: abortingOptions_def)
  have d: "firesAt \<lparr>firesAt = Some 0, reason = None\<rparr> = Some 0"
    by simp
  show ?thesis
    using a b c d C5_cancelled_before_first_attempt [OF a b c d]
    by (simp add: abortReason_def)
qed

subsection \<open>What a run does, attempt by attempt\<close>

lemma attemptLoop_exit:
  "fst (attemptLoop fm operation random options modelIndex attempt errors w) \<noteq>
     Some (Thrown (AllModelsExhaustedError es))"
  by (rule attemptLoop_cases [where P = "\<lambda>attempt errors w res.
        fst res \<noteq> Some (Thrown (AllModelsExhaustedError es))"]) simp_all

lemma now_notify: "now (notify b e w) = now w"
  by (simp add: notify_def)

lemma elapsed_append: "elapsed (xs @ ys) = elapsed xs + elapsed ys"
  by (induction xs rule: elapsed.induct) simp_all

lemma attempts_append: "attempts t (xs @ ys) = attempts t xs @ attempts (t + elapsed xs) ys"
  by (induction t xs rule: attempts.induct) simp_all

text \<open>
  What one run of the inner loop adds: a piece of trace that accounts for the time
  passed; pairs appended to \<open>errors\<close>, which record the attempts of that piece one by one
  when the loop is left for the next backend; and, when an attempt of the piece is
  fatal, the loop throws its failure and the piece ends with that invocation and its
  Error event.
\<close>

lemma attemptLoop_run:
  "\<exists>tr new.
     trace (snd (snd (attemptLoop fm operation random options modelIndex attempt errors w))) = trace w @ tr \<and>
     now (snd (snd (attemptLoop fm operation random options modelIndex attempt errors w))) = now w + elapsed tr \<and>
     fst (snd (attemptLoop fm operation random options modelIndex attempt errors w)) = errors @ new \<and>
     (fst (attemptLoop fm operation random options modelIndex attempt errors w) = None \<longrightarrow>
        list_all2 (recorded fm operation) new (attempts (now w) tr)) \<and>
     (\<forall>a e. a \<in> set (attempts (now w) tr) \<longrightarrow> fatalAt fm operation a e \<longrightarrow>
        fst (attemptLoop fm operation random options modelIndex attempt errors w) =
          Some (Thrown (Failure e)) \<and>
        (\<exists>pre. tr = pre @ Invoke (fst a) #
           (if fm_onError fm then [Emit (ErrorEvent (fst a) (fm_models fm ! fst a) e Throw)] else [])))"
proof (rule attemptLoop_cases [where P = "\<lambda>attempt errors w res.
    \<exists>tr new.
     trace (snd (snd res)) = trace w @ tr \<and>
     now (snd (snd res)) = now w + elapsed tr \<and>
     fst (snd res) = errors @ new \<and>
     (fst res = None \<longrightarrow> list_all2 (recorded fm operation) new (attempts (now w) tr)) \<and>
     (\<forall>a e. a \<in> set (attempts (now w) tr) \<longrightarrow> fatalAt fm operation a e \<longrightarrow>
        fst res = Some (Thrown (Failure e)) \<and>
        (\<exists>pre. tr = pre @ Invoke (fst a) #
           (if fm_onError fm then [Emit (ErrorEvent (fst a) (fm_models fm ! fst a) e Throw)] else [])))"],
    goal_cases)
  case (1 attempt errors w)
  show ?case
    by (intro exI [of _ "[]"]) simp
next
  case (2 attempt errors w c)
  show ?case
    by (intro exI [of _ "[]"]) simp
next
  case (3 attempt errors w result)
  then show ?case
    by (intro exI [of _ "[Invoke modelIndex]"] exI [of _ "[]"]) (simp add: fatalAt_def)
next
  case (4 attempt errors w error)
  let ?tr = "Invoke modelIndex #
      (if fm_onError fm then [Emit (ErrorEvent modelIndex (fm_models fm ! modelIndex) error Throw)] else [])"
  have "trace (caught fm modelIndex error w) = trace w @ ?tr"
    "now (caught fm modelIndex error w) = now w + elapsed ?tr"
    "attempts (now w) ?tr = [(modelIndex, now w)]"
    using 4 by (simp_all add: trace_notify now_notify)
  moreover have "\<And>a e. a = (modelIndex, now w) \<Longrightarrow> fatalAt fm operation a e \<Longrightarrow> e = error"
    using 4 by (simp add: fatalAt_def)
  ultimately show ?case
    by (intro exI [of _ ?tr] exI [of _ "[]"]) auto
next
  case (5 attempt errors w error)
  let ?m = "fm_models fm ! modelIndex"
  let ?tr = "Invoke modelIndex #
      (if fm_onError fm then [Emit (ErrorEvent modelIndex ?m error (fm_shouldRetry fm error))] else []) @
      (if int modelIndex < int (length (fm_models fm)) - 1 \<and> fm_onFallback fm
       then [Emit (FallbackEvent modelIndex ?m (modelIndex + 1) (fm_models fm ! (modelIndex + 1))
                error (attempt + 1))] else [])"
  have "trace (advancing fm modelIndex attempt error w) = trace w @ ?tr"
    "now (advancing fm modelIndex attempt error w) = now w + elapsed ?tr"
    "attempts (now w) ?tr = [(modelIndex, now w)]"
    by (simp_all add: trace_notify now_notify)
  moreover have "recorded fm operation (?m, error) (modelIndex, now w)"
    using 5 by (simp add: recorded_def)
  moreover have "\<And>a e. a = (modelIndex, now w) \<Longrightarrow> \<not> fatalAt fm operation a e"
    using 5 by (auto simp: fatalAt_def)
  ultimately show ?case
    by (intro exI [of _ ?tr] exI [of _ "[(?m, error)]"]) auto
next
  case (6 attempt errors w error c w')
  let ?m = "fm_models fm ! modelIndex"
  let ?d = "backoff fm random attempt (caught fm modelIndex error w)"
  let ?head = "Invoke modelIndex #
      (if fm_onError fm then [Emit (ErrorEvent modelIndex ?m error (fm_shouldRetry fm error))] else []) @
      (if fm_onRetry fm then [Emit (RetryEvent modelIndex ?m (attempt + 1)
          (fm_maxRetriesPerModel fm) error ?d)] else [])"
  have w3: "trace (retrying fm random modelIndex attempt error w) = trace w @ ?head"
    "now (retrying fm random modelIndex attempt error w) = now w + 1"
    by (simp_all add: trace_notify now_notify)
  have nofatal: "\<And>a e. a = (modelIndex, now w) \<Longrightarrow> \<not> fatalAt fm operation a e"
    using 6 by (auto simp: fatalAt_def)
  from sleep_Rejected [OF 6(5)]
  consider "w' = retrying fm random modelIndex attempt error w"
    | "w' = (retrying fm random modelIndex attempt error w)
          \<lparr>now := now (retrying fm random modelIndex attempt error w) + 1,
           trace := trace (retrying fm random modelIndex attempt error w) @ [Wait ?d False]\<rparr>"
    by blast
  then show ?case
  proof cases
    case 1
    have "trace w' = trace w @ ?head" "now w' = now w + elapsed ?head"
      "attempts (now w) ?head = [(modelIndex, now w)]"
      unfolding 1 using w3 by simp_all
    with nofatal show ?thesis
      by (intro exI [of _ ?head] exI [of _ "[(?m, error)]"]) auto
  next
    case 2
    have "trace w' = trace w @ (?head @ [Wait ?d False])"
      "now w' = now w + elapsed (?head @ [Wait ?d False])"
      "attempts (now w) (?head @ [Wait ?d False]) = [(modelIndex, now w)]"
      unfolding 2 using w3 by (simp_all add: elapsed_append attempts_append)
    with nofatal show ?thesis
      by (intro exI [of _ "?head @ [Wait ?d False]"] exI [of _ "[(?m, error)]"]) auto
  qed
next
  case (7 attempt errors w error w')
  let ?m = "fm_models fm ! modelIndex"
  let ?d = "backoff fm random attempt (caught fm modelIndex error w)"
  let ?head = "Invoke modelIndex #
      (if fm_onError fm then [Emit (ErrorEvent modelIndex ?m error (fm_shouldRetry fm error))] else []) @
      (if fm_onRetry fm then [Emit (RetryEvent modelIndex ?m (attempt + 1)
          (fm_maxRetriesPerModel fm) error ?d)] else []) @ [Wait ?d True]"
  let ?next = "attemptLoop fm operation random options modelIndex (attempt + 1)
           (errors @ [(?m, error)]) w'"
  have w': "trace w' = trace w @ ?head" "now w' = now w + 2"
    using sleep_Resolved [OF 7(5)] by (simp_all add: trace_notify now_notify)
  have head: "elapsed ?head = 2" "attempts (now w) ?head = [(modelIndex, now w)]"
    by (simp_all add: elapsed_append attempts_append)
  have rec: "recorded fm operation (?m, error) (modelIndex, now w)"
    using 7 by (simp add: recorded_def)
  have nofatal: "\<And>e. \<not> fatalAt fm operation (modelIndex, now w) e"
    using 7 by (auto simp: fatalAt_def)
  from 7(6) show ?case
  proof (elim exE conjE)
    fix tr new
    assume tr: "trace (snd (snd ?next)) = trace w' @ tr"
      and nw: "now (snd (snd ?next)) = now w' + elapsed tr"
      and new: "fst (snd ?next) = (errors @ [(?m, error)]) @ new"
      and recd: "fst ?next = None \<longrightarrow> list_all2 (recorded fm operation) new (attempts (now w') tr)"
      and fat: "\<forall>a e. a \<in> set (attempts (now w') tr) \<longrightarrow> fatalAt fm operation a e \<longrightarrow>
        fst ?next = Some (Thrown (Failure e)) \<and>
        (\<exists>pre. tr = pre @ Invoke (fst a) #
           (if fm_onError fm then [Emit (ErrorEvent (fst a) (fm_models fm ! fst a) e Throw)] else []))"
    have att: "attempts (now w) (?head @ tr) = (modelIndex, now w) # attempts (now w') tr"
      unfolding attempts_append [of "now w" ?head tr] head w' by simp
    have a: "trace (snd (snd ?next)) = trace w @ (?head @ tr)"
      using tr w' by simp
    have b: "now (snd (snd ?next)) = now w + elapsed (?head @ tr)"
      unfolding elapsed_append head using nw w' by simp
    have c: "fst (snd ?next) = errors @ ((?m, error) # new)"
      using new by simp
    have d: "fst ?next = None \<longrightarrow>
        list_all2 (recorded fm operation) ((?m, error) # new) (attempts (now w) (?head @ tr))"
      unfolding att using recd rec by simp
    have e: "\<forall>a e. a \<in> set (attempts (now w) (?head @ tr)) \<longrightarrow> fatalAt fm operation a e \<longrightarrow>
          fst ?next = Some (Thrown (Failure e)) \<and>
          (\<exists>pre. ?head @ tr = pre @ Invoke (fst a) #
             (if fm_onError fm then [Emit (ErrorEvent (fst a) (fm_models fm ! fst a) e Throw)] else []))"
    proof (intro allI impI)
      fix a e assume "a \<in> set (attempts (now w) (?head @ tr))" and f: "fatalAt fm operation a e"
      then have "a \<in> set (attempts (now w') tr)"
        unfolding att using nofatal by auto
      with fat f obtain pre where "fst ?next = Some (Thrown (Failure e))"
        and "tr = pre @ Invoke (fst a) #
             (if fm_onError fm then [Emit (ErrorEvent (fst a) (fm_models fm ! fst a) e Throw)] else [])"
        by blast
      then have "fst ?next = Some (Thrown (Failure e))"
        and "?head @ tr = (?head @ pre) @ Invoke (fst a) #
             (if fm_onError fm then [Emit (ErrorEvent (fst a) (fm_models fm ! fst a) e Throw)] else [])"
        by simp_all
      then show "fst ?next = Some (Thrown (Failure e)) \<and>
          (\<exists>pre. ?head @ tr = pre @ Invoke (fst a) #
             (if fm_onError fm then [Emit (ErrorEvent (fst a) (fm_models fm ! fst a) e Throw)] else []))"
        by blast
    qed
    show ?thesis
      by (intro exI [of _ "?head @ tr"] exI [of _ "(?m, error) # new"] conjI a b c d e)
  qed
qed

text \<open>The same for the outer loop, whose completion is that of the invocation.\<close>

lemma modelLoop_run:
  "\<exists>tr.
     trace (snd (modelLoop fm operation random options modelIndex errors w)) = trace w @ tr \<and>
     now (snd (modelLoop fm operation random options modelIndex errors w)) = now w + elapsed tr \<and>
     (\<forall>errs. fst (modelLoop fm operation random options modelIndex errors w) =
          Thrown (AllModelsExhaustedError errs) \<longrightarrow>
        (\<exists>new. errs = errors @ new \<and>
           list_all2 (recorded fm operation) new (attempts (now w) tr))) \<and>
     (\<forall>a e. a \<in> set (attempts (now w) tr) \<longrightarrow> fatalAt fm operation a e \<longrightarrow>
        fst (modelLoop fm operation random options modelIndex errors w) = Thrown (Failure e) \<and>
        (\<exists>pre. tr = pre @ Invoke (fst a) #
           (if fm_onError fm then [Emit (ErrorEvent (fst a) (fm_models fm ! fst a) e Throw)] else [])))"
proof (induction fm operation random options modelIndex errors w rule: modelLoop.induct)
  case (1 fm operation random options modelIndex errors w)
  let ?run = "modelLoop fm operation random options modelIndex errors w"
  show ?case
  proof (cases "modelIndex < length (fm_models fm)")
    case False
    then have "?run = (Thrown (AllModelsExhaustedError errors), w)"
      by (simp add: modelLoop.simps [of fm operation random options modelIndex])
    then show ?thesis
      by (intro exI [of _ "[]"]) simp
  next
    case True
    obtain exit errors1 w1 where al:
      "attemptLoop fm operation random options modelIndex 0 errors w = (exit, errors1, w1)"
      by (cases "attemptLoop fm operation random options modelIndex 0 errors w")
    from attemptLoop_run [of fm operation random options modelIndex 0 errors w]
    show ?thesis
      unfolding al fst_conv snd_conv
    proof (elim exE conjE)
      fix tr1 new1
      assume tr1: "trace w1 = trace w @ tr1"
        and nw1: "now w1 = now w + elapsed tr1"
        and new1: "errors1 = errors @ new1"
        and rec1: "exit = None \<longrightarrow> list_all2 (recorded fm operation) new1 (attempts (now w) tr1)"
        and fat1: "\<forall>a e. a \<in> set (attempts (now w) tr1) \<longrightarrow> fatalAt fm operation a e \<longrightarrow>
            exit = Some (Thrown (Failure e)) \<and>
            (\<exists>pre. tr1 = pre @ Invoke (fst a) #
               (if fm_onError fm then [Emit (ErrorEvent (fst a) (fm_models fm ! fst a) e Throw)] else []))"
      show ?thesis
      proof (cases exit)
        case (Some c)
        then have run: "?run = (c, w1)"
          using True al by (simp add: modelLoop.simps [of fm operation random options modelIndex])
        have notall: "\<And>errs. c \<noteq> Thrown (AllModelsExhaustedError errs)"
          using attemptLoop_exit [of fm operation random options modelIndex 0 errors w] al Some
          by auto
        show ?thesis
          unfolding run fst_conv snd_conv
          using tr1 nw1 fat1 Some notall by (intro exI [of _ tr1]) auto
      next
        case None
        let ?next = "modelLoop fm operation random options (modelIndex + 1) errors1 w1"
        have run: "?run = ?next"
          using True al None by (simp add: modelLoop.simps [of fm operation random options modelIndex])
        have quiet: "\<And>a e. a \<in> set (attempts (now w) tr1) \<Longrightarrow> \<not> fatalAt fm operation a e"
          using fat1 None by auto
        from "1.IH" [OF True al [symmetric] refl None]
        show ?thesis
        proof (elim exE conjE)
          fix tr2
          assume tr2: "trace (snd ?next) = trace w1 @ tr2"
            and nw2: "now (snd ?next) = now w1 + elapsed tr2"
            and rec2: "\<forall>errs. fst ?next = Thrown (AllModelsExhaustedError errs) \<longrightarrow>
                (\<exists>new. errs = errors1 @ new \<and>
                   list_all2 (recorded fm operation) new (attempts (now w1) tr2))"
            and fat2: "\<forall>a e. a \<in> set (attempts (now w1) tr2) \<longrightarrow> fatalAt fm operation a e \<longrightarrow>
                fst ?next = Thrown (Failure e) \<and>
                (\<exists>pre. tr2 = pre @ Invoke (fst a) #
                   (if fm_onError fm then [Emit (ErrorEvent (fst a) (fm_models fm ! fst a) e Throw)] else []))"
          have att: "attempts (now w) (tr1 @ tr2) = attempts (now w) tr1 @ attempts (now w1) tr2"
            unfolding attempts_append nw1 ..
          have a: "trace (snd ?run) = trace w @ (tr1 @ tr2)"
            unfolding run using tr1 tr2 by simp
          have b: "now (snd ?run) = now w + elapsed (tr1 @ tr2)"
            unfolding run elapsed_append using nw1 nw2 by simp
          have c: "\<forall>errs. fst ?run = Thrown (AllModelsExhaustedError errs) \<longrightarrow>
                (\<exists>new. errs = errors @ new \<and>
                   list_all2 (recorded fm operation) new (attempts (now w) (tr1 @ tr2)))"
          proof (intro allI impI)
            fix errs assume "fst ?run = Thrown (AllModelsExhaustedError errs)"
            with rec2 run obtain new2 where "errs = errors1 @ new2"
              and "list_all2 (recorded fm operation) new2 (attempts (now w1) tr2)"
              by auto
            with rec1 None new1 have "errs = errors @ (new1 @ new2)"
              and "list_all2 (recorded fm operation) (new1 @ new2) (attempts (now w) (tr1 @ tr2))"
              unfolding att by (simp_all add: list_all2_appendI)
            then show "\<exists>new. errs = errors @ new \<and>
                   list_all2 (recorded fm operation) new (attempts (now w) (tr1 @ tr2))"
              by blast
          qed
          have d: "\<forall>a e. a \<in> set (attempts (now w) (tr1 @ tr2)) \<longrightarrow> fatalAt fm operation a e \<longrightarrow>
                fst ?run = Thrown (Failure e) \<and>
                (\<exists>pre. tr1 @ tr2 = pre @ Invoke (fst a) #
                   (if fm_onError fm then [Emit (ErrorEvent (fst a) (fm_models fm ! fst a) e Throw)] else []))"
          proof (intro allI impI)
            fix a e assume "a \<in> set (attempts (now w) (tr1 @ tr2))" and f: "fatalAt fm operation a e"
            then have "a \<in> set (attempts (now w) tr1) \<or> a \<in> set (attempts (now w1) tr2)"
              unfolding att by simp
            with quiet [of a e] f have "a \<in> set (attempts (now w1) tr2)"
              by blast
            with fat2 f obtain pre where "fst ?next = Thrown (Failure e)"
              and "tr2 = pre @ Invoke (fst a) #
                   (if fm_onError fm then [Emit (ErrorEvent (fst a) (fm_models fm ! fst a) e Throw)] else [])"
              by blast
            then have "fst ?run = Thrown (Failure e)"
              and "tr1 @ tr2 = (tr1 @ pre) @ Invoke (fst a) #
                   (if fm_onError fm then [Emit (ErrorEvent (fst a) (fm_models fm ! fst a) e Throw)] else [])"
              unfolding run by simp_all
            then show "fst ?run = Thrown (Failure e) \<and>
                (\<exists>pre. tr1 @ tr2 = pre @ Invoke (fst a) #
                   (if fm_onError fm then [Emit (ErrorEvent (fst a) (fm_models fm ! fst a) e Throw)] else []))"
              by blast
          qed
          show ?thesis
            by (intro exI [of _ "tr1 @ tr2"] conjI a b c d)
        qed
      qed
    qed
  qed
qed

subsection \<open>Fatal failures\<close>

text \<open>
  Claim C6: whenever, in an invocation of generate or stream, an attempt (backend \<open>i\<close>,
  invoked at time \<open>t\<close>) rejects with a failure that the classifier maps to \<open>Throw\<close>, the
  invocation throws that very failure; the attempt is the last one, and after it the
  trace holds the Error event alone (if an observer is installed): no Retry event, no
  Fallback event, no sleep. And at every attempt number and with every \<open>errors\<close> list,
  the iteration of the loop that makes such an attempt leaves the loops by throwing the
  failure with \<open>errors\<close> as it was.
\<close>

theorem C6_fatal_failure_is_rethrown:
  assumes "executeWithFallback fm operation random options = (res, w)"
    and "(i, t) \<in> set (attempts 0 (trace w))"
    and "operation (fm_models fm ! i) t = Inl error"
    and "fm_shouldRetry fm error = Throw"
  shows "res = Thrown (Failure error) \<and>
         (\<exists>pre. trace w = pre @ Invoke i #
            (if fm_onError fm then [Emit (ErrorEvent i (fm_models fm ! i) error Throw)] else [])) \<and>
         (\<forall>attempt errors w0. int attempt \<le> fm_maxRetriesPerModel fm \<longrightarrow>
            cancellation (abortSignal options) (now w0) = None \<longrightarrow> now w0 = t \<longrightarrow>
            attemptLoop fm operation random options i attempt errors w0 =
              (Some (Thrown (Failure error)), errors,
               notify (fm_onError fm) (ErrorEvent i (fm_models fm ! i) error Throw)
                 (w0\<lparr>now := now w0 + 1, trace := trace w0 @ [Invoke i]\<rparr>)))"
proof -
  have run: "modelLoop fm operation random options 0 [] \<lparr>now = 0, trace = []\<rparr> = (res, w)"
    using assms(1) by (simp add: executeWithFallback_def)
  have fatal: "fatalAt fm operation (i, t) error"
    using assms(3,4) by (simp add: fatalAt_def)
  from modelLoop_run [of fm operation random options 0 "[]" "\<lparr>now = 0, trace = []\<rparr>"]
  have "\<forall>a e. a \<in> set (attempts 0 (trace w)) \<longrightarrow> fatalAt fm operation a e \<longrightarrow>
        res = Thrown (Failure e) \<and>
        (\<exists>pre. trace w = pre @ Invoke (fst a) #
           (if fm_onError fm then [Emit (ErrorEvent (fst a) (fm_models fm ! fst a) e Throw)] else []))"
    unfolding run by auto
  with assms(2) fatal have whole: "res = Thrown (Failure error) \<and>
         (\<exists>pre. trace w = pre @ Invoke i #
            (if fm_onError fm then [Emit (ErrorEvent i (fm_models fm ! i) error Throw)] else []))"
    by fastforce
  have step: "attemptLoop fm operation random options i attempt errors w0 =
              (Some (Thrown (Failure error)), errors,
               notify (fm_onError fm) (ErrorEvent i (fm_models fm ! i) error Throw)
                 (w0\<lparr>now := now w0 + 1, trace := trace w0 @ [Invoke i]\<rparr>))"
    if "int attempt \<le> fm_maxRetriesPerModel fm"
      and "cancellation (abortSignal options) (now w0) = None" and "now w0 = t"
    for attempt errors w0
    using that assms(3,4)
    by (simp add: attemptLoop.simps [of fm operation random options i attempt])
  from whole step show ?thesis
    by blast
qed

text \<open>
  A chain whose first backend is rate limited and whose second rejects the credentials,
  with no retries: the 429 moves the invocation on, the 401 ends it.
\<close>

lemma run_rate_limited_then_locked:
  "executeWithFallback
       (mockFallback [mockModel ''rate-limited'' Status429,
          rejectingModel ''locked'' (APICallError (Some 401) False ''Unauthorized'')] 0)
       (\<lambda>model. doGenerate model plainOptions) (\<lambda>t. 0) plainOptions =
     (Thrown (Failure (APICallError (Some 401) False ''Unauthorized'')),
      \<lparr>now = 2,
       trace =
         [Invoke 0,
          Emit (ErrorEvent 0 (mockModel ''rate-limited'' Status429)
                  (APICallError (Some 429) True ''Rate limited on rate-limited'') Fallback),
          Emit (FallbackEvent 0 (mockModel ''rate-limited'' Status429) 1
                  (rejectingModel ''locked'' (APICallError (Some 401) False ''Unauthorized''))
                  (APICallError (Some 429) True ''Rate limited on rate-limited'') 1),
          Invoke 1,
          Emit (ErrorEvent 1 (rejectingModel ''locked'' (APICallError (Some 401) False ''Unauthorized''))
                  (APICallError (Some 401) False ''Unauthorized'') Throw)]\<rparr>)"
  by (simp add: executeWithFallback_def modelLoop.simps attemptLoop.simps Let_def
        mockFallback_def mockModel_def rejectingModel_def plainOptions_def cancellation_def
        notify_def)

theorem C6_fatal_failure_is_rethrown_witness:
  "(1, 1) \<in> set (attempts 0 (trace (snd (executeWithFallback
       (mockFallback [mockModel ''rate-limited'' Status429,
          rejectingModel ''locked'' (APICallError (Some 401) False ''Unauthorized'')] 0)
       (\<lambda>model. doGenerate model plainOptions) (\<lambda>t. 0) plainOptions)))) \<and>
   doGenerate (fm_models (mockFallback [mockModel ''rate-limited'' Status429,
          rejectingModel ''locked'' (APICallError (Some 401) False ''Unauthorized'')] 0) ! 1)
       plainOptions 1 = Inl (APICallError (Some 401) False ''Unauthorized'') \<and>
   fm_shouldRetry (mockFallback [mockModel ''rate-limited'' Status429,
          rejectingModel ''locked'' (APICallError (Some 401) False ''Unauthorized'')] 0)
       (APICallError (Some 401) False ''Unauthorized'') = Throw \<and>
   fst (executeWithFallback
       (mockFallback [mockModel ''rate-limited'' Status429,
          rejectingModel ''locked'' (APICallError (Some 401) False ''Unauthorized'')] 0)
       (\<lambda>model. doGenerate model plainOptions) (\<lambda>t. 0) plainOptions) =
     Thrown (Failure (APICallError (Some 401) False ''Unauthorized'')) \<and>
   (\<exists>pre. trace (snd (executeWithFallback
       (mockFallback [mockModel ''rate-limited'' Status429,
          rejectingModel ''locked'' (APICallError (Some 401) False ''Unauthorized'')] 0)
       (\<lambda>model. doGenerate model plainOptions) (\<lambda>t. 0) plainOptions)) =
     pre @ [Invoke 1,
            Emit (ErrorEvent 1 (rejectingModel ''locked'' (APICallError (Some 401) False ''Unauthorized''))
                    (APICallError (Some 401) False ''Unauthorized'') Throw)]) \<and>
   int 0 \<le> fm_maxRetriesPerModel (mockFallback [mockModel ''rate-limited'' Status429,
          rejectingModel ''locked'' (APICallError (Some 401) False ''Unauthorized'')] 0) \<and>
   cancellation (abortSignal plainOptions) (now \<lparr>now = 1, trace = [Invoke 0]\<rparr>) = None \<and>
   attemptLoop
       (mockFallback [mockModel ''rate-limited'' Status429,
          rejectingModel ''locked'' (APICallError (Some 401) False ''Unauthorized'')] 0)
       (\<lambda>model. doGenerate model plainOptions) (\<lambda>t. 0) plainOptions 1 0
       [(mockModel ''rate-limited'' Status429, APICallError (Some 429) True ''Rate limited on rate-limited'')]
       \<lparr>now = 1, trace = [Invoke 0]\<rparr> =
     (Some (Thrown (Failure (APICallError (Some 401) False ''Unauthorized''))),
      [(mockModel ''rate-limited'' Status429, APICallError (Some 429) True ''Rate limited on rate-limited'')],
      \<lparr>now = 2,
       trace = [Invoke 0, Invoke 1,
                Emit (ErrorEvent 1 (rejectingModel ''locked'' (APICallError (Some 401) False ''Unauthorized''))
                        (APICallError (Some 401) False ''Unauthorized'') Throw)]\<rparr>)"
proof -
  let ?e = "APICallError (Some 401) False ''Unauthorized''"
  let ?fm = "mockFallback [mockModel ''rate-limited'' Status429, rejectingModel ''locked'' ?e] 0"
  let ?op = "\<lambda>model :: (string, string) model. doGenerate model plainOptions"
  let ?run = "executeWithFallback ?fm ?op (\<lambda>t. 0) plainOptions"
  let ?w0 = "\<lparr>now = 1, trace = [Invoke 0]\<rparr> :: (string, string) world"
  have a: "?run = (fst ?run, snd ?run)"
    by simp
  have b: "(1, 1) \<in> set (attempts 0 (trace (snd ?run)))"
    by (simp add: run_rate_limited_then_locked)
  have c: "?op (fm_models ?fm ! 1) 1 = Inl ?e"
    by (simp add: mockFallback_def rejectingModel_def)
  have d: "fm_shouldRetry ?fm ?e = Throw"
    by (simp add: mockFallback_def)
  have h1: "int 0 \<le> fm_maxRetriesPerModel ?fm"
    by (simp add: mockFallback_def)
  have h2: "cancellation (abortSignal plainOptions) (now ?w0) = None"
    by (simp add: plainOptions_def cancellation_def)
  have h3: "now ?w0 = 1"
    by simp
  note all = C6_fatal_failure_is_rethrown [where operation = ?op, OF a b c d]
  note whole = all [THEN conjunct1] all [THEN conjunct2, THEN conjunct1]
  note step = all [THEN conjunct2, THEN conjunct2, rule_format, OF h1 h2 h3]
  show ?thesis
    using b c d h1 h2 whole step [of "[(mockModel ''rate-limited'' Status429,
        APICallError (Some 429) True ''Rate limited on rate-limited'')]"]
    by (simp add: mockFallback_def notify_def)
qed

subsection \<open>Three rate-limited backends\<close>

text \<open>
  Claim C3: with \<open>maxRetriesPerModel = 0\<close>, the default classifier and a signal that
  never fires, if each of the three backends of the chain rejects its one attempt with
  a 429 failure, then generate throws the \<open>AllModelsExhaustedError\<close> with exactly these
  three failures in chain order, and the observer of Fallback events is called exactly
  twice: from backend 0 to 1 and from 1 to 2, not after the last backend.
\<close>

theorem C3_three_rate_limited_backends:
  assumes "fm_models fm = [a, b, c]"
    and "fm_maxRetriesPerModel fm = 0"
    and "fm_shouldRetry fm = defaultShouldRetry"
    and "fm_onFallback fm"
    and "\<forall>t. cancellation (abortSignal options) t = None"
    and "doGenerate a options 0 = Inl (APICallError (Some 429) ra ma)"
    and "doGenerate b options 1 = Inl (APICallError (Some 429) rb mb)"
    and "doGenerate c options 2 = Inl (APICallError (Some 429) rc mc)"
  shows "fst (fallback_doGenerate fm random options) =
           Thrown (AllModelsExhaustedError
             [(a, APICallError (Some 429) ra ma),
              (b, APICallError (Some 429) rb mb),
              (c, APICallError (Some 429) rc mc)]) \<and>
         filter isFallbackEvent (trace (snd (fallback_doGenerate fm random options))) =
           [Emit (FallbackEvent 0 a 1 b (APICallError (Some 429) ra ma) 1),
            Emit (FallbackEvent 1 b 2 c (APICallError (Some 429) rb mb) 1)]"
proof -
  have third: "doGenerate c options (Suc (Suc 0)) = Inl (APICallError (Some 429) rc mc)"
    using assms(8) by (simp add: numeral_2_eq_2)
  show ?thesis
    using assms(1-7) third
    by (simp add: fallback_doGenerate_def executeWithFallback_def modelLoop.simps
          attemptLoop.simps Let_def notify_def)
qed

theorem C3_three_rate_limited_backends_witness:
  "fm_models (mockFallback [mockModel ''model-a'' Status429, mockModel ''model-b'' Status429,
       mockModel ''model-c'' Status429] 0) =
     [mockModel ''model-a'' Status429, mockModel ''model-b'' Status429, mockModel ''model-c'' Status429] \<and>
   fst (fallback_doGenerate (mockFallback [mockModel ''model-a'' Status429,
       mockModel ''model-b'' Status429, mockModel ''model-c'' Status429] 0) (\<lambda>t. 0) plainOptions) =
     Thrown (AllModelsExhaustedError
       [(mockModel ''model-a'' Status429, APICallError (Some 429) True ''Rate limited on model-a''),
        (mockModel ''model-b'' Status429, APICallError (Some 429) True ''Rate limited on model-b''),
        (mockModel ''model-c'' Status429, APICallError (Some 429) True ''Rate limited on model-c'')]) \<and>
   filter isFallbackEvent (trace (snd (fallback_doGenerate (mockFallback [mockModel ''model-a'' Status429,
       mockModel ''model-b'' Status429, mockModel ''model-c'' Status429] 0) (\<lambda>t. 0) plainOptions))) =
     [Emit (FallbackEvent 0 (mockModel ''model-a'' Status429) 1 (mockModel ''model-b'' Status429)
          (APICallError (Some 429) True ''Rate limited on model-a'') 1),
      Emit (FallbackEvent 1 (mockModel ''model-b'' Status429) 2 (mockModel ''model-c'' Status429)
          (APICallError (Some 429) True ''Rate limited on model-b'') 1)]"
proof -
  let ?a = "mockModel ''model-a'' Status429"
  let ?b = "mockModel ''model-b'' Status429"
  let ?c = "mockModel ''model-c'' Status429"
  let ?fm = "mockFallback [?a, ?b, ?c] 0"
  have h1: "fm_models ?fm = [?a, ?b, ?c]"
    and h2: "fm_maxRetriesPerModel ?fm = 0"
    and h3: "fm_shouldRetry ?fm = defaultShouldRetry"
    and h4: "fm_onFallback ?fm"
    by (simp_all add: mockFallback_def)
  have h5: "\<forall>t. cancellation (abortSignal plainOptions) t = None"
    by (simp add: plainOptions_def cancellation_def)
  have h6: "doGenerate ?a plainOptions 0 = Inl (APICallError (Some 429) True ''Rate limited on model-a'')"
    and h7: "doGenerate ?b plainOptions 1 = Inl (APICallError (Some 429) True ''Rate limited on model-b'')"
    and h8: "doGenerate ?c plainOptions 2 = Inl (APICallError (Some 429) True ''Rate limited on model-c'')"
    by (simp_all add: mockModel_def)
  show ?thesis
    using h1 C3_three_rate_limited_backends [OF h1 h2 h3 h4 h5 h6 h7 h8, of "\<lambda>t. 0"]
    by simp
qed

subsection \<open>Cancellation during a backoff sleep\<close>



lemma calculateDelay_default_first: "calculateDelay 0 (Finite 1000) (Finite 30000) 0 = Finite 500"
proof -
  have "\<lfloor>1001 / 2 :: rat\<rfloor> = 500"
    by (rule floor_unique) simp_all
  then show ?thesis
    using double_of_int [of 1000] double_of_int [of 500] double_of_int [of 1]
      double_dyadic [of 1 "- 1"]
    by (simp add: calculateDelay_def Math_pow2_def fl_exact)
qed




subsection \<open>The failures recorded in the aggregate error\<close>

lemma attemptLoop_errors:
  "\<exists>new. fst (snd (attemptLoop fm operation random options modelIndex attempt errors w)) =
           errors @ new \<and>
         map fst new = replicate (length new) (fm_models fm ! modelIndex) \<and>
         length new \<le> nat (fm_maxRetriesPerModel fm + 1 - int attempt) \<and>
         (fst (attemptLoop fm operation random options modelIndex attempt errors w) = None \<and>
            int attempt \<le> fm_maxRetriesPerModel fm \<longrightarrow> 1 \<le> length new) \<and>
         (\<forall>f \<in> snd ` set new. fm_shouldRetry fm f \<noteq> Throw \<and>
            (\<exists>t. operation (fm_models fm ! modelIndex) t = Inl f))"
proof (rule attemptLoop_cases [where P = "\<lambda>attempt errors w res.
    \<exists>new. fst (snd res) = errors @ new \<and>
         map fst new = replicate (length new) (fm_models fm ! modelIndex) \<and>
         length new \<le> nat (fm_maxRetriesPerModel fm + 1 - int attempt) \<and>
         (fst res = None \<and> int attempt \<le> fm_maxRetriesPerModel fm \<longrightarrow> 1 \<le> length new) \<and>
         (\<forall>f \<in> snd ` set new. fm_shouldRetry fm f \<noteq> Throw \<and>
            (\<exists>t. operation (fm_models fm ! modelIndex) t = Inl f))"])
  fix attempt errors and w :: "('a, 'b) world" and error
  let ?m = "fm_models fm ! modelIndex"
  assume "int attempt \<le> fm_maxRetriesPerModel fm"
    and "operation ?m (now w) = Inl error"
    and "fm_shouldRetry fm error \<noteq> Throw"
  then have "map fst [(?m, error)] = replicate (length [(?m, error)]) ?m \<and>
         length [(?m, error)] \<le> nat (fm_maxRetriesPerModel fm + 1 - int attempt) \<and>
         1 \<le> length [(?m, error)] \<and>
         (\<forall>f \<in> snd ` set [(?m, error)]. fm_shouldRetry fm f \<noteq> Throw \<and>
            (\<exists>t. operation ?m t = Inl f))"
    by auto
  then show "\<exists>new. fst (snd (None :: ('a, 'b, 'c) completion option, errors @ [(?m, error)],
              advancing fm modelIndex attempt error w)) = errors @ new \<and>
         map fst new = replicate (length new) ?m \<and>
         length new \<le> nat (fm_maxRetriesPerModel fm + 1 - int attempt) \<and>
         (fst (None :: ('a, 'b, 'c) completion option, errors @ [(?m, error)],
              advancing fm modelIndex attempt error w) = None \<and>
            int attempt \<le> fm_maxRetriesPerModel fm \<longrightarrow> 1 \<le> length new) \<and>
         (\<forall>f \<in> snd ` set new. fm_shouldRetry fm f \<noteq> Throw \<and>
            (\<exists>t. operation ?m t = Inl f))"
    by (intro exI [of _ "[(?m, error)]"]) simp
next
  fix attempt errors and w w' :: "('a, 'b) world" and error c
  let ?m = "fm_models fm ! modelIndex"
  assume "int attempt < fm_maxRetriesPerModel fm"
    and "operation ?m (now w) = Inl error"
    and "fm_shouldRetry fm error = Retry"
  then have "map fst [(?m, error)] = replicate (length [(?m, error)]) ?m \<and>
         length [(?m, error)] \<le> nat (fm_maxRetriesPerModel fm + 1 - int attempt) \<and>
         (\<forall>f \<in> snd ` set [(?m, error)]. fm_shouldRetry fm f \<noteq> Throw \<and>
            (\<exists>t. operation ?m t = Inl f))"
    by auto
  then show "\<exists>new. fst (snd (Some (Thrown (Failure c)) :: ('a, 'b, 'c) completion option,
              errors @ [(?m, error)], w')) = errors @ new \<and>
         map fst new = replicate (length new) ?m \<and>
         length new \<le> nat (fm_maxRetriesPerModel fm + 1 - int attempt) \<and>
         (fst (Some (Thrown (Failure c)) :: ('a, 'b, 'c) completion option,
              errors @ [(?m, error)], w') = None \<and>
            int attempt \<le> fm_maxRetriesPerModel fm \<longrightarrow> 1 \<le> length new) \<and>
         (\<forall>f \<in> snd ` set new. fm_shouldRetry fm f \<noteq> Throw \<and>
            (\<exists>t. operation ?m t = Inl f))"
    by (intro exI [of _ "[(?m, error)]"]) simp
next
  fix attempt errors and w w' :: "('a, 'b) world" and error
  let ?m = "fm_models fm ! modelIndex"
  let ?next = "attemptLoop fm operation random options modelIndex (attempt + 1)
           (errors @ [(?m, error)]) w'"
  assume more: "int attempt < fm_maxRetriesPerModel fm"
    and op: "operation ?m (now w) = Inl error"
    and retry: "fm_shouldRetry fm error = Retry"
  assume "\<exists>new. fst (snd ?next) = (errors @ [(?m, error)]) @ new \<and>
         map fst new = replicate (length new) ?m \<and>
         length new \<le> nat (fm_maxRetriesPerModel fm + 1 - int (attempt + 1)) \<and>
         (fst ?next = None \<and> int (attempt + 1) \<le> fm_maxRetriesPerModel fm \<longrightarrow> 1 \<le> length new) \<and>
         (\<forall>f \<in> snd ` set new. fm_shouldRetry fm f \<noteq> Throw \<and>
            (\<exists>t. operation ?m t = Inl f))"
  then obtain new where new: "fst (snd ?next) = (errors @ [(?m, error)]) @ new"
    and fsts: "map fst new = replicate (length new) ?m"
    and len: "length new \<le> nat (fm_maxRetriesPerModel fm + 1 - int (attempt + 1))"
    and fails: "\<forall>f \<in> snd ` set new. fm_shouldRetry fm f \<noteq> Throw \<and>
            (\<exists>t. operation ?m t = Inl f)"
    by blast
  have "fst (snd ?next) = errors @ ((?m, error) # new)"
    using new by simp
  moreover have "map fst ((?m, error) # new) = replicate (length ((?m, error) # new)) ?m"
    using fsts by simp
  moreover have "length ((?m, error) # new) \<le> nat (fm_maxRetriesPerModel fm + 1 - int attempt)"
    using len more by simp
  moreover have "1 \<le> length ((?m, error) # new)"
    by simp
  moreover have "\<forall>f \<in> snd ` set ((?m, error) # new). fm_shouldRetry fm f \<noteq> Throw \<and>
            (\<exists>t. operation ?m t = Inl f)"
    using fails op retry by auto
  ultimately show "\<exists>new. fst (snd ?next) = errors @ new \<and>
         map fst new = replicate (length new) ?m \<and>
         length new \<le> nat (fm_maxRetriesPerModel fm + 1 - int attempt) \<and>
         (fst ?next = None \<and> int attempt \<le> fm_maxRetriesPerModel fm \<longrightarrow> 1 \<le> length new) \<and>
         (\<forall>f \<in> snd ` set new. fm_shouldRetry fm f \<noteq> Throw \<and>
            (\<exists>t. operation ?m t = Inl f))"
    by blast
qed simp_all

lemma concat_replicate_once:
  "length ks = length ms \<Longrightarrow> \<forall>k\<in>set ks. k = Suc 0 \<Longrightarrow> concat (map2 replicate ks ms) = ms"
  by (induction ks ms rule: list_induct2) simp_all

lemma modelLoop_errors:
  assumes "modelLoop fm operation random options modelIndex errors w =
             (Thrown (AllModelsExhaustedError errs), w')"
  shows "\<exists>ks new. errs = errors @ new \<and>
           length ks = length (fm_models fm) - modelIndex \<and>
           (\<forall>k\<in>set ks. k \<le> nat (fm_maxRetriesPerModel fm + 1) \<and>
              (0 \<le> fm_maxRetriesPerModel fm \<longrightarrow> 1 \<le> k)) \<and>
           map fst new = concat (map2 replicate ks (drop modelIndex (fm_models fm))) \<and>
           (\<forall>(m, f)\<in>set new. fm_shouldRetry fm f \<noteq> Throw \<and> (\<exists>t. operation m t = Inl f))"
  using assms
proof (induction fm operation random options modelIndex errors w rule: modelLoop.induct)
  case (1 fm operation random options modelIndex errors w)
  let ?m = "fm_models fm ! modelIndex"
  show ?case
  proof (cases "modelIndex < length (fm_models fm)")
    case False
    then have "errs = errors"
      using "1.prems" by (simp add: modelLoop.simps [of fm operation random options modelIndex])
    with False show ?thesis
      by (intro exI [of _ "[]"]) simp
  next
    case True
    obtain exit errors1 w1 where al:
      "attemptLoop fm operation random options modelIndex 0 errors w = (exit, errors1, w1)"
      by (cases "attemptLoop fm operation random options modelIndex 0 errors w")
    from attemptLoop_errors [of fm operation random options modelIndex 0 errors w]
    obtain new1 where new1: "errors1 = errors @ new1"
      and fsts1: "map fst new1 = replicate (length new1) ?m"
      and len1: "length new1 \<le> nat (fm_maxRetriesPerModel fm + 1)"
      and some1: "exit = None \<and> 0 \<le> fm_maxRetriesPerModel fm \<longrightarrow> 1 \<le> length new1"
      and fails1: "\<forall>f \<in> snd ` set new1. fm_shouldRetry fm f \<noteq> Throw \<and>
            (\<exists>t. operation ?m t = Inl f)"
      unfolding al by auto
    have exit: "exit = None"
    proof (cases exit)
      case (Some c)
      then have "c = Thrown (AllModelsExhaustedError errs)"
        using "1.prems" True al
        by (simp add: modelLoop.simps [of fm operation random options modelIndex])
      with Some attemptLoop_exit [of fm operation random options modelIndex 0 errors w errs] al
      show ?thesis by simp
    qed simp
    have "modelLoop fm operation random options (modelIndex + 1) errors1 w1 =
        (Thrown (AllModelsExhaustedError errs), w')"
      using "1.prems" True al exit
      by (simp add: modelLoop.simps [of fm operation random options modelIndex])
    from "1.IH" [OF True al [symmetric] refl exit this]
    obtain ks2 new2 where new2: "errs = errors1 @ new2"
      and lks2: "length ks2 = length (fm_models fm) - (modelIndex + 1)"
      and ks2: "\<forall>k\<in>set ks2. k \<le> nat (fm_maxRetriesPerModel fm + 1) \<and>
              (0 \<le> fm_maxRetriesPerModel fm \<longrightarrow> 1 \<le> k)"
      and fsts2: "map fst new2 = concat (map2 replicate ks2 (drop (modelIndex + 1) (fm_models fm)))"
      and fails2: "\<forall>(m, f)\<in>set new2. fm_shouldRetry fm f \<noteq> Throw \<and> (\<exists>t. operation m t = Inl f)"
      by blast
    have dr: "drop modelIndex (fm_models fm) = ?m # drop (modelIndex + 1) (fm_models fm)"
      using True by (simp add: Cons_nth_drop_Suc)
    have a: "errs = errors @ (new1 @ new2)"
      using new1 new2 by simp
    have b: "length (length new1 # ks2) = length (fm_models fm) - modelIndex"
      using lks2 True by simp
    have c: "\<forall>k\<in>set (length new1 # ks2). k \<le> nat (fm_maxRetriesPerModel fm + 1) \<and>
              (0 \<le> fm_maxRetriesPerModel fm \<longrightarrow> 1 \<le> k)"
      using ks2 len1 some1 exit by simp
    have d: "map fst (new1 @ new2) =
        concat (map2 replicate (length new1 # ks2) (drop modelIndex (fm_models fm)))"
      unfolding dr using fsts1 fsts2 by simp
    have e: "\<forall>(m, f)\<in>set (new1 @ new2). fm_shouldRetry fm f \<noteq> Throw \<and> (\<exists>t. operation m t = Inl f)"
    proof -
      have "\<forall>(m, f)\<in>set new1. fm_shouldRetry fm f \<noteq> Throw \<and> (\<exists>t. operation m t = Inl f)"
      proof (clarify)
        fix m f assume mf: "(m, f) \<in> set new1"
        then have "m \<in> set (map fst new1)" by force
        then have "m = ?m" unfolding fsts1 by simp
        moreover have "f \<in> snd ` set new1" using mf by force
        ultimately show "fm_shouldRetry fm f \<noteq> Throw \<and> (\<exists>t. operation m t = Inl f)"
          using fails1 by blast
      qed
      with fails2 show ?thesis by auto
    qed
    from a b c d e show ?thesis by blast
  qed
qed

lemma run_unstable_exhausted:
  "executeWithFallback (mockFallback [unstable] 1)
       (\<lambda>model. doGenerate model plainOptions) (\<lambda>t. 0) plainOptions =
     (Thrown (AllModelsExhaustedError
        [(unstable, APICallError (Some 500) True ''Server error on unstable''),
         (unstable, APICallError (Some 500) True ''Server error on unstable'')]),
      \<lparr>now = 3,
       trace =
         [Invoke 0,
          Emit (ErrorEvent 0 unstable (APICallError (Some 500) True ''Server error on unstable'') Retry),
          Emit (RetryEvent 0 unstable 1 1 (APICallError (Some 500) True ''Server error on unstable'')
                  (Finite 500)),
          Wait (Finite 500) True,
          Invoke 0,
          Emit (ErrorEvent 0 unstable (APICallError (Some 500) True ''Server error on unstable'') Retry)]\<rparr>)"
  by (simp add: executeWithFallback_def modelLoop.simps attemptLoop.simps Let_def
        mockFallback_def mockModel_def unstable_def plainOptions_def cancellation_def
        notify_def sleep_def calculateDelay_default_first)

lemma run_unstable_once:
  "executeWithFallback (mockFallback [unstable] 0)
       (\<lambda>model. doGenerate model plainOptions) (\<lambda>t. 0) plainOptions =
     (Thrown (AllModelsExhaustedError
        [(unstable, APICallError (Some 500) True ''Server error on unstable'')]),
      \<lparr>now = 1,
       trace =
         [Invoke 0,
          Emit (ErrorEvent 0 unstable (APICallError (Some 500) True ''Server error on unstable'') Retry)]\<rparr>)"
  by (simp add: executeWithFallback_def modelLoop.simps attemptLoop.simps Let_def
        mockFallback_def mockModel_def unstable_def plainOptions_def cancellation_def
        notify_def)

text \<open>
  Claim C1, as stated: on exhaustion the aggregate error holds exactly one pair for
  each backend attempted and abandoned, for every \<open>maxRetriesPerModel\<close>. It fails as
  soon as a backend is retried: every failed attempt is pushed, so the one backend of
  test 3, retried once, is recorded twice.
\<close>

theorem C1_counterexample:
  "fm_models (mockFallback [unstable] 1) = [unstable] \<and>
   fst (fallback_doGenerate (mockFallback [unstable] 1) (\<lambda>t. 0) plainOptions) =
     Thrown (AllModelsExhaustedError
        [(unstable, APICallError (Some 500) True ''Server error on unstable''),
         (unstable, APICallError (Some 500) True ''Server error on unstable'')])"
  by (simp add: fallback_doGenerate_def run_unstable_exhausted) (simp add: mockFallback_def)

text \<open>
  Claim C1, amended: on exhaustion the aggregate error holds one pair for each attempt
  made, in the order of the attempts: the \<open>k\<close>-th pair is the backend invoked by the
  \<open>k\<close>-th invocation of the trace and the failure that this invocation threw, which the
  classifier did not map to \<open>Throw\<close>; there are as many pairs as invocations. For every
  backend of the chain, in chain order, the list holds a run of \<open>k\<close> consecutive pairs
  with that backend, where \<open>k\<close> is at most \<open>maxRetriesPerModel + 1\<close>, and at least 1
  unless \<open>maxRetriesPerModel\<close> is negative; it holds exactly one pair per backend when
  \<open>maxRetriesPerModel = 0\<close>.
\<close>

theorem C1_one_pair_per_failed_attempt:
  assumes "executeWithFallback fm operation random options =
             (Thrown (AllModelsExhaustedError errs), w)"
  shows "list_all2 (recorded fm operation) errs (attempts 0 (trace w)) \<and>
         (\<exists>ks. length ks = length (fm_models fm) \<and>
            (\<forall>k\<in>set ks. k \<le> nat (fm_maxRetriesPerModel fm + 1) \<and>
               (0 \<le> fm_maxRetriesPerModel fm \<longrightarrow> 1 \<le> k)) \<and>
            map fst errs = concat (map2 replicate ks (fm_models fm))) \<and>
         (fm_maxRetriesPerModel fm = 0 \<longrightarrow> map fst errs = fm_models fm)"
proof -
  have run: "modelLoop fm operation random options 0 [] \<lparr>now = 0, trace = []\<rparr> =
      (Thrown (AllModelsExhaustedError errs), w)"
    using assms by (simp add: executeWithFallback_def)
  from modelLoop_run [of fm operation random options 0 "[]" "\<lparr>now = 0, trace = []\<rparr>"]
  have pairs: "list_all2 (recorded fm operation) errs (attempts 0 (trace w))"
    unfolding run by auto
  from modelLoop_errors [OF run]
  obtain ks where len: "length ks = length (fm_models fm)"
    and ks: "\<forall>k\<in>set ks. k \<le> nat (fm_maxRetriesPerModel fm + 1) \<and>
              (0 \<le> fm_maxRetriesPerModel fm \<longrightarrow> 1 \<le> k)"
    and fsts: "map fst errs = concat (map2 replicate ks (fm_models fm))"
    by auto
  have "map fst errs = fm_models fm" if "fm_maxRetriesPerModel fm = 0"
  proof -
    have "\<forall>k\<in>set ks. k = Suc 0"
      using ks that by force
    with len fsts show ?thesis
      by (simp add: concat_replicate_once)
  qed
  with pairs len ks fsts show ?thesis
    by blast
qed

theorem C1_one_pair_per_failed_attempt_witness:
  "executeWithFallback (mockFallback [unstable] 1)
       (\<lambda>model. doGenerate model plainOptions) (\<lambda>t. 0) plainOptions =
     (Thrown (AllModelsExhaustedError
        [(unstable, APICallError (Some 500) True ''Server error on unstable''),
         (unstable, APICallError (Some 500) True ''Server error on unstable'')]),
      \<lparr>now = 3,
       trace =
         [Invoke 0,
          Emit (ErrorEvent 0 unstable (APICallError (Some 500) True ''Server error on unstable'') Retry),
          Emit (RetryEvent 0 unstable 1 1 (APICallError (Some 500) True ''Server error on unstable'')
                  (Finite 500)),
          Wait (Finite 500) True,
          Invoke 0,
          Emit (ErrorEvent 0 unstable (APICallError (Some 500) True ''Server error on unstable'') Retry)]\<rparr>) \<and>
   list_all2 (recorded (mockFallback [unstable] 1) (\<lambda>model. doGenerate model plainOptions))
     [(unstable, APICallError (Some 500) True ''Server error on unstable''),
      (unstable, APICallError (Some 500) True ''Server error on unstable'')]
     [(0, 0), (0, 2)] \<and>
   (\<exists>ks. length ks = length (fm_models (mockFallback [unstable] 1)) \<and>
      (\<forall>k\<in>set ks. k \<le> nat (fm_maxRetriesPerModel (mockFallback [unstable] 1) + 1) \<and>
         (0 \<le> fm_maxRetriesPerModel (mockFallback [unstable] 1) \<longrightarrow> 1 \<le> k)) \<and>
      map fst [(unstable, APICallError (Some 500) True ''Server error on unstable''),
               (unstable, APICallError (Some 500) True ''Server error on unstable'')] =
        concat (map2 replicate ks (fm_models (mockFallback [unstable] 1)))) \<and>
   executeWithFallback (mockFallback [unstable] 0)
       (\<lambda>model. doGenerate model plainOptions) (\<lambda>t. 0) plainOptions =
     (Thrown (AllModelsExhaustedError
        [(unstable, APICallError (Some 500) True ''Server error on unstable'')]),
      \<lparr>now = 1,
       trace =
         [Invoke 0,
          Emit (ErrorEvent 0 unstable (APICallError (Some 500) True ''Server error on unstable'') Retry)]\<rparr>) \<and>
   fm_maxRetriesPerModel (mockFallback [unstable] 0) = 0 \<and>
   map fst [(unstable, APICallError (Some 500) True ''Server error on unstable'')] =
     fm_models (mockFallback [unstable] 0)"
proof -
  have tr: "attempts 0 (trace \<lparr>now = 3, trace =
         [Invoke 0,
          Emit (ErrorEvent 0 unstable (APICallError (Some 500) True ''Server error on unstable'') Retry),
          Emit (RetryEvent 0 unstable 1 1 (APICallError (Some 500) True ''Server error on unstable'')
                  (Finite 500)),
          Wait (Finite 500) True,
          Invoke 0,
          Emit (ErrorEvent 0 unstable (APICallError (Some 500) True ''Server error on unstable'') Retry)]\<rparr>)
        = [(0, 0), (0, 2)]"
    by simp
  have zero: "fm_maxRetriesPerModel (mockFallback [unstable] 0) = 0"
    by (simp add: mockFallback_def)
  note twice = C1_one_pair_per_failed_attempt [OF run_unstable_exhausted]
  note once = C1_one_pair_per_failed_attempt [OF run_unstable_once]
  from twice have a: "list_all2 (recorded (mockFallback [unstable] 1) (\<lambda>model. doGenerate model plainOptions))
     [(unstable, APICallError (Some 500) True ''Server error on unstable''),
      (unstable, APICallError (Some 500) True ''Server error on unstable'')]
     [(0, 0), (0, 2)]"
    unfolding tr by (rule conjunct1)
  from once zero have b: "map fst [(unstable, APICallError (Some 500) True ''Server error on unstable'')] =
     fm_models (mockFallback [unstable] 0)"
    by blast
  show ?thesis
    by (intro conjI run_unstable_exhausted run_unstable_once a
          twice [THEN conjunct2, THEN conjunct1] zero b)
qed

end
